theory Spec2Isabelle
  imports Complex_Main "HOL-Library.Monad_Syntax"
begin

section \<open>Tensors\<close>

text \<open>
  The program builds Theano expressions over \<open>floatX\<close> tensors. An expression is modelled
  by the value it evaluates to, over exact real arithmetic (rounding and overflow of the
  floating-point format are outside the model). A tensor is its shape and its indexing
  function; a vector and a matrix are different types, as Theano fixes the number of
  dimensions of a variable when the expression is built. Evaluation that raises (a shape
  mismatch in an elementwise operation or a product, an index read on an empty axis, a
  probability outside [0, 1], a scan of no step) or that has no real value (the mean of an
  empty vector) is \<open>None\<close>.

  A method of the class builds an expression. The model of a method is in state-passing
  form: it gives what evaluating the method's expression on the current values of the
  object returns, together with the object afterwards. An assignment to an attribute
  would be a changed field of the returned object; drawing a hidden sample advances the
  random stream.
\<close>

record vec =
  vlen :: nat
  vel :: "nat \<Rightarrow> real"

record mat =
  nrows :: nat
  ncols :: nat
  elem :: "nat \<Rightarrow> nat \<Rightarrow> real"

text \<open>\<open>T.dot(a, b)\<close> for two matrices.\<close>

definition dot :: "mat \<Rightarrow> mat \<Rightarrow> mat option" where
  "dot a b =
     (if ncols a = nrows b
      then Some \<lparr>nrows = nrows a, ncols = ncols b,
                  elem = \<lambda>i j. \<Sum>l<ncols a. elem a i l * elem b l j\<rparr>
      else None)"

text \<open>\<open>a + b\<close> and \<open>a - b\<close> for two matrices: neither axis is broadcastable, the shapes
  must agree.\<close>

definition add :: "mat \<Rightarrow> mat \<Rightarrow> mat option" where
  "add a b =
     (if nrows a = nrows b \<and> ncols a = ncols b
      then Some \<lparr>nrows = nrows a, ncols = ncols a, elem = \<lambda>i j. elem a i j + elem b i j\<rparr>
      else None)"

definition sub :: "mat \<Rightarrow> mat \<Rightarrow> mat option" where
  "sub a b =
     (if nrows a = nrows b \<and> ncols a = ncols b
      then Some \<lparr>nrows = nrows a, ncols = ncols a, elem = \<lambda>i j. elem a i j - elem b i j\<rparr>
      else None)"

text \<open>\<open>a + b\<close> for a matrix and a vector: the vector is added to every row.\<close>

definition add_row :: "mat \<Rightarrow> vec \<Rightarrow> mat option" where
  "add_row a b =
     (if ncols a = vlen b
      then Some \<lparr>nrows = nrows a, ncols = ncols a, elem = \<lambda>i j. elem a i j + vel b j\<rparr>
      else None)"

text \<open>\<open>a - b\<close> for two vectors.\<close>

definition sub_vec :: "vec \<Rightarrow> vec \<Rightarrow> vec option" where
  "sub_vec a b =
     (if vlen a = vlen b
      then Some \<lparr>vlen = vlen a, vel = \<lambda>i. vel a i - vel b i\<rparr>
      else None)"

text \<open>Elementwise functions: \<open>T.sqr\<close>, \<open>T.exp\<close>, \<open>T.log\<close>, \<open>T.nnet.sigmoid\<close>, and the
  product or sum with a scalar.\<close>

definition map_mat :: "(real \<Rightarrow> real) \<Rightarrow> mat \<Rightarrow> mat" where
  "map_mat f a = \<lparr>nrows = nrows a, ncols = ncols a, elem = \<lambda>i j. f (elem a i j)\<rparr>"

definition map_vec :: "(real \<Rightarrow> real) \<Rightarrow> vec \<Rightarrow> vec" where
  "map_vec f a = \<lparr>vlen = vlen a, vel = \<lambda>i. f (vel a i)\<rparr>"

definition sqr :: "real \<Rightarrow> real" where
  "sqr x = x * x"

definition sigmoid :: "real \<Rightarrow> real" where
  "sigmoid x = 1 / (1 + exp (- x))"

text \<open>\<open>T.sum(a, axis=1)\<close>, \<open>T.mean(a)\<close> of a vector, and \<open>a.T\<close>.\<close>

definition sum_axis1 :: "mat \<Rightarrow> vec" where
  "sum_axis1 a = \<lparr>vlen = nrows a, vel = \<lambda>i. \<Sum>j<ncols a. elem a i j\<rparr>"

definition mean :: "vec \<Rightarrow> real option" where
  "mean a = (if vlen a = 0 then None else Some ((\<Sum>i<vlen a. vel a i) / real (vlen a)))"

definition transpose_mat :: "mat \<Rightarrow> mat" where
  "transpose_mat a = \<lparr>nrows = ncols a, ncols = nrows a, elem = \<lambda>i j. elem a j i\<rparr>"

section \<open>Random streams\<close>

text \<open>
  \<open>theano_rng.binomial(size, n=1, p)\<close> hands \<open>p\<close> to numpy's \<open>RandomState.binomial\<close>, which
  refuses a \<open>p\<close> with an entry below 0 or above 1 and otherwise fills the result in
  row-major order, one call of its binomial sampler per entry. For \<open>n = 1\<close> the sampler
  works by inversion on one uniform draw \<open>U\<close> in [0, 1): with \<open>p \<le> 0.5\<close> the count starts
  at 0 and is raised once exactly when \<open>U\<close> exceeds \<open>q = 1 - p\<close>; with \<open>p > 0.5\<close> the
  sampler returns \<open>1\<close> minus the count it finds for \<open>1 - p\<close>. The generator is modelled by
  the uniform draws it will hand out and the position of the next one.
\<close>

record rng =
  draws :: "nat \<Rightarrow> real"
  pos :: nat

definition binomial_inversion :: "real \<Rightarrow> real \<Rightarrow> real" where
  "binomial_inversion u p = (if 1 - p < u then 1 else 0)"

definition rk_binomial :: "real \<Rightarrow> real \<Rightarrow> real" where
  "rk_binomial u p =
     (if p \<le> 0.5 then binomial_inversion u p else 1 - binomial_inversion u (1 - p))"

definition binomial :: "rng \<Rightarrow> mat \<Rightarrow> (mat \<times> rng) option" where
  "binomial g p =
     (if \<forall>i<nrows p. \<forall>j<ncols p. 0 \<le> elem p i j \<and> elem p i j \<le> 1
      then Some (\<lparr>nrows = nrows p, ncols = ncols p,
                   elem = \<lambda>i j. rk_binomial (draws g (pos g + i * ncols p + j)) (elem p i j)\<rparr>,
                 g\<lparr>pos := pos g + nrows p * ncols p\<rparr>)
      else None)"

section \<open>The CRBM\<close>

text \<open>
  The object: the sizes, the values of the five shared variables, the random stream, and
  the values bound to the symbolic \<open>input\<close> and \<open>input_history\<close>.
\<close>

record crbm =
  n_visible :: nat
  n_hidden :: nat
  delay :: nat
  W :: mat
  A :: mat
  B :: mat
  hbias :: vec
  vbias :: vec
  theano_rng :: rng
  input :: mat
  input_history :: mat

text \<open>The shapes the constructor gives the parameters.\<close>

definition shapes_ok :: "crbm \<Rightarrow> bool" where
  "shapes_ok self \<longleftrightarrow>
     nrows (W self) = n_visible self \<and> ncols (W self) = n_hidden self \<and>
     nrows (A self) = n_visible self * delay self \<and> ncols (A self) = n_visible self \<and>
     nrows (B self) = n_visible self * delay self \<and> ncols (B self) = n_hidden self \<and>
     vlen (hbias self) = n_hidden self \<and> vlen (vbias self) = n_visible self"

text \<open>A batch of visible vectors with its history windows.\<close>

definition batch_ok :: "crbm \<Rightarrow> mat \<Rightarrow> mat \<Rightarrow> bool" where
  "batch_ok self v v_history \<longleftrightarrow>
     ncols v = n_visible self \<and> nrows v_history = nrows v \<and>
     ncols v_history = n_visible self * delay self"

definition free_energy :: "crbm \<Rightarrow> mat \<Rightarrow> mat \<Rightarrow> (vec \<times> crbm) option" where
  "free_energy self v_sample v_history = do {
     vw \<leftarrow> dot v_sample (W self);
     hb \<leftarrow> dot v_history (B self);
     s \<leftarrow> add vw hb;
     wx_b \<leftarrow> add_row s (hbias self);
     ha \<leftarrow> dot v_history (A self);
     ax_b \<leftarrow> add_row ha (vbias self);
     d \<leftarrow> sub v_sample ax_b;
     let visible_term = sum_axis1 (map_mat (\<lambda>x. 0.5 * x) (map_mat sqr d));
     let hidden_term = sum_axis1 (map_mat ln (map_mat (\<lambda>x. 1 + x) (map_mat exp wx_b)));
     r \<leftarrow> sub_vec visible_term hidden_term;
     Some (r, self)
   }"

definition propup :: "crbm \<Rightarrow> mat \<Rightarrow> mat \<Rightarrow> ((mat \<times> mat) \<times> crbm) option" where
  "propup self vis v_history = do {
     vw \<leftarrow> dot vis (W self);
     hb \<leftarrow> dot v_history (B self);
     s \<leftarrow> add vw hb;
     pre_sigmoid_activation \<leftarrow> add_row s (hbias self);
     Some ((pre_sigmoid_activation, map_mat sigmoid pre_sigmoid_activation), self)
   }"

definition sample_h_given_v :: "crbm \<Rightarrow> mat \<Rightarrow> mat \<Rightarrow> ((mat \<times> mat \<times> mat) \<times> crbm) option" where
  "sample_h_given_v self v0_sample v_history = do {
     ((pre_sigmoid_h1, h1_mean), self1) \<leftarrow> propup self v0_sample v_history;
     (h1_sample, g) \<leftarrow> binomial (theano_rng self1) h1_mean;
     Some ((pre_sigmoid_h1, h1_mean, h1_sample), self1\<lparr>theano_rng := g\<rparr>)
   }"

definition propdown :: "crbm \<Rightarrow> mat \<Rightarrow> mat \<Rightarrow> (mat \<times> crbm) option" where
  "propdown self hid v_history = do {
     hw \<leftarrow> dot hid (transpose_mat (W self));
     ha \<leftarrow> dot v_history (A self);
     s \<leftarrow> add hw ha;
     mean_activation \<leftarrow> add_row s (vbias self);
     Some (mean_activation, self)
   }"

definition sample_v_given_h :: "crbm \<Rightarrow> mat \<Rightarrow> mat \<Rightarrow> ((mat \<times> mat) \<times> crbm) option" where
  "sample_v_given_h self h0_sample v_history = do {
     (v1_mean, self1) \<leftarrow> propdown self h0_sample v_history;
     let v1_sample = v1_mean;
     Some ((v1_mean, v1_sample), self1)
   }"

type_synonym gibbs_out = "mat \<times> mat \<times> mat \<times> mat \<times> mat"

definition gibbs_hvh :: "crbm \<Rightarrow> mat \<Rightarrow> mat \<Rightarrow> (gibbs_out \<times> crbm) option" where
  "gibbs_hvh self h0_sample v_history = do {
     ((v1_mean, v1_sample), self1) \<leftarrow> sample_v_given_h self h0_sample v_history;
     ((pre_sigmoid_h1, h1_mean, h1_sample), self2) \<leftarrow> sample_h_given_v self1 v1_sample v_history;
     Some ((v1_mean, v1_sample, pre_sigmoid_h1, h1_mean, h1_sample), self2)
   }"

definition gibbs_vhv :: "crbm \<Rightarrow> mat \<Rightarrow> mat \<Rightarrow> (gibbs_out \<times> crbm) option" where
  "gibbs_vhv self v0_sample v_history = do {
     ((pre_sigmoid_h1, h1_mean, h1_sample), self1) \<leftarrow> sample_h_given_v self v0_sample v_history;
     ((v1_mean, v1_sample), self2) \<leftarrow> sample_v_given_h self1 h1_sample v_history;
     Some ((pre_sigmoid_h1, h1_mean, h1_sample, v1_mean, v1_sample), self2)
   }"

section \<open>Contrastive divergence\<close>

text \<open>
  \<open>theano.scan(fn, outputs_info=[None, None, None, None, chain_start],
  non_sequences=v_history, n_steps=k)\<close>. \<open>scan_steps\<close> is the iteration: \<open>fn\<close> is applied
  step after step, the fifth output of a step is the first argument of the next, the
  non-sequence is passed to every step, and the outputs of all steps are returned in
  order with the object as it stands after the last step. \<open>scan\<close> is what the library makes
  of the integer \<open>n_steps\<close>: for 1 and for -1 it applies \<open>fn\<close> once, without a scan
  operation; for every other value it builds a scan operation, which runs \<open>n_steps\<close>
  steps and raises when it is asked for zero or a negative number of steps.
\<close>

fun scan_steps :: "(crbm \<Rightarrow> mat \<Rightarrow> mat \<Rightarrow> (gibbs_out \<times> crbm) option) \<Rightarrow> crbm \<Rightarrow> mat \<Rightarrow> mat \<Rightarrow> nat
    \<Rightarrow> (gibbs_out list \<times> crbm) option" where
  "scan_steps fn self h v_history 0 = Some ([], self)"
| "scan_steps fn self h v_history (Suc n) = do {
     ((v1_mean, v1_sample, pre_sigmoid_h1, h1_mean, h1_sample), self') \<leftarrow> fn self h v_history;
     (outs, self'') \<leftarrow> scan_steps fn self' h1_sample v_history n;
     Some ((v1_mean, v1_sample, pre_sigmoid_h1, h1_mean, h1_sample) # outs, self'')
   }"

definition scan :: "(crbm \<Rightarrow> mat \<Rightarrow> mat \<Rightarrow> (gibbs_out \<times> crbm) option) \<Rightarrow> crbm \<Rightarrow> mat \<Rightarrow> mat \<Rightarrow> int
    \<Rightarrow> (gibbs_out list \<times> crbm) option" where
  "scan fn self h v_history n_steps =
     (if n_steps = 1 \<or> n_steps = - 1 then scan_steps fn self h v_history 1
      else if n_steps \<le> 0 then None
      else scan_steps fn self h v_history (nat n_steps))"

text \<open>\<open>xs[-1]\<close> on the leading axis: an empty axis has no last element.\<close>

definition last_item :: "'a list \<Rightarrow> 'a option" where
  "last_item xs = (if xs = [] then None else Some (last xs))"

text \<open>The five shared variables of \<open>self.params\<close>, in the list's order, and their values.\<close>

datatype param = Param_W | Param_A | Param_B | Param_hbias | Param_vbias

datatype tensor = Vec vec | Mat mat

definition params :: "param list" where
  "params = [Param_W, Param_A, Param_B, Param_hbias, Param_vbias]"

fun value_of :: "crbm \<Rightarrow> param \<Rightarrow> tensor" where
  "value_of self Param_W = Mat (W self)"
| "value_of self Param_A = Mat (A self)"
| "value_of self Param_B = Mat (B self)"
| "value_of self Param_hbias = Vec (hbias self)"
| "value_of self Param_vbias = Vec (vbias self)"

text \<open>\<open>t * c\<close> for a scalar \<open>c\<close>, and \<open>s - t\<close> for two tensors of equal rank.\<close>

fun scale :: "tensor \<Rightarrow> real \<Rightarrow> tensor" where
  "scale (Vec a) c = Vec (map_vec (\<lambda>x. x * c) a)"
| "scale (Mat a) c = Mat (map_mat (\<lambda>x. x * c) a)"

fun minus_tensor :: "tensor \<Rightarrow> tensor \<Rightarrow> tensor option" where
  "minus_tensor (Vec a) (Vec b) = map_option Vec (sub_vec a b)"
| "minus_tensor (Mat a) (Mat b) = map_option Mat (sub a b)"
| "minus_tensor _ _ = None"

text \<open>The cost of lines 250-251, as a function of the chain end.\<close>

definition cost :: "crbm \<Rightarrow> mat \<Rightarrow> (real \<times> crbm) option" where
  "cost self chain_end = do {
     (fe_input, self1) \<leftarrow> free_energy self (input self) (input_history self);
     m_input \<leftarrow> mean fe_input;
     (fe_end, self2) \<leftarrow> free_energy self1 chain_end (input_history self1);
     m_end \<leftarrow> mean fe_end;
     Some (m_input - m_end, self2)
   }"

text \<open>
  \<open>T.grad(cost, self.params, consider_constant=[chain_end])\<close>: one tensor per parameter,
  of the parameter's shape, holding the partial derivatives of \<open>cost\<close> in the parameter's
  entries with \<open>chain_end\<close> a constant. The library differentiates the expression; the
  model gives the derivative in closed form (\<open>p_input\<close> and \<open>p_end\<close> are the hidden
  probabilities of the input and of the chain end), and the lemma
  \<open>grad_partial_derivatives\<close> proves that these are the partial derivatives.
\<close>

definition grad :: "crbm \<Rightarrow> mat \<Rightarrow> tensor list option" where
  "grad self chain_end = do {
     _ \<leftarrow> cost self chain_end;
     ((_, p_input), _) \<leftarrow> propup self (input self) (input_history self);
     ((_, p_end), _) \<leftarrow> propup self chain_end (input_history self);
     let x = input self;
     let h = input_history self;
     let n = real (nrows x);
     Some [
       Mat \<lparr>nrows = nrows (W self), ncols = ncols (W self),
            elem = \<lambda>l j. (\<Sum>i<nrows x. elem chain_end i l * elem p_end i j
                                      - elem x i l * elem p_input i j) / n\<rparr>,
       Mat \<lparr>nrows = nrows (A self), ncols = ncols (A self),
            elem = \<lambda>t j. (\<Sum>i<nrows x. elem h i t * (elem chain_end i j - elem x i j)) / n\<rparr>,
       Mat \<lparr>nrows = nrows (B self), ncols = ncols (B self),
            elem = \<lambda>t j. (\<Sum>i<nrows x. elem h i t * (elem p_end i j - elem p_input i j)) / n\<rparr>,
       Vec \<lparr>vlen = vlen (hbias self),
            vel = \<lambda>j. (\<Sum>i<nrows x. elem p_end i j - elem p_input i j) / n\<rparr>,
       Vec \<lparr>vlen = vlen (vbias self),
            vel = \<lambda>j. (\<Sum>i<nrows x. elem chain_end i j - elem x i j) / n\<rparr>]
   }"

text \<open>The dictionary of updates: the random stream's entry, which \<open>scan\<close> returns, and
  the entries of the parameters, which the loop of lines 256-264 adds.\<close>

record updates =
  new_stream :: rng
  new_value :: "param \<rightharpoonup> tensor"

fun update_loop :: "crbm \<Rightarrow> real \<Rightarrow> (tensor \<times> param) list \<Rightarrow> updates \<Rightarrow> updates option" where
  "update_loop self lr [] upd = Some upd"
| "update_loop self lr ((gparam, p) # rest) upd = do {
     v \<leftarrow> (if p = Param_A
           then minus_tensor (value_of self p) (scale (scale gparam 0.01) lr)
           else minus_tensor (value_of self p) (scale gparam lr));
     update_loop self lr rest (upd\<lparr>new_value := (new_value upd)(p \<mapsto> v)\<rparr>)
   }"

definition get_reconstruction_cost :: "crbm \<Rightarrow> updates \<Rightarrow> mat \<Rightarrow> (real \<times> crbm) option" where
  "get_reconstruction_cost self upd pre_sigmoid_nv = do {
     d \<leftarrow> sub (input self) pre_sigmoid_nv;
     recon \<leftarrow> mean (sum_axis1 (map_mat sqr d));
     Some (recon, self)
   }"

text \<open>Lines 222-244: the positive phase and the chain.\<close>

definition negative_phase :: "int \<Rightarrow> crbm \<Rightarrow> (gibbs_out list \<times> crbm) option" where
  "negative_phase k self = do {
     ((pre_sigmoid_ph, ph_mean, ph_sample), self1) \<leftarrow>
        sample_h_given_v self (input self) (input_history self);
     let chain_start = ph_sample;
     scan gibbs_hvh self1 chain_start (input_history self1) k
   }"

definition nv_mean :: "gibbs_out \<Rightarrow> mat" where
  "nv_mean out = fst out"

definition nv_sample :: "gibbs_out \<Rightarrow> mat" where
  "nv_sample out = fst (snd out)"

definition nh_sample :: "gibbs_out \<Rightarrow> mat" where
  "nh_sample out = snd (snd (snd (snd out)))"

text \<open>
  What \<open>get_cost_updates\<close> returns is a pair of expressions, the monitoring cost and the
  dictionary of updates; nothing is computed and no argument is checked when it is
  called, and the object is as it was. \<open>theano.function\<close> evaluates both expressions on
  the values the variables have when the compiled function runs: \<open>evaluate lr k\<close> is
  that evaluation, the body of \<open>get_cost_updates\<close> line by line.
\<close>

definition evaluate :: "real \<Rightarrow> int \<Rightarrow> crbm \<Rightarrow> (real \<times> updates) option" where
  "evaluate lr k self = do {
     (outs, self1) \<leftarrow> negative_phase k self;
     let upd = \<lparr>new_stream = theano_rng self1, new_value = Map.empty\<rparr>;
     chain_end \<leftarrow> last_item (map nv_sample outs);
     (_, self2) \<leftarrow> cost self1 chain_end;
     gparams \<leftarrow> grad self2 chain_end;
     upd \<leftarrow> update_loop self2 lr (zip gparams params) upd;
     nv_mean_end \<leftarrow> last_item (map nv_mean outs);
     (monitoring_cost, self3) \<leftarrow> get_reconstruction_cost self2 upd nv_mean_end;
     Some (monitoring_cost, upd)
   }"

definition get_cost_updates ::
    "crbm \<Rightarrow> real \<Rightarrow> int \<Rightarrow> ((crbm \<Rightarrow> (real \<times> updates) option) \<times> crbm) option" where
  "get_cost_updates self lr k = Some (evaluate lr k, self)"

text \<open>
  The driver: \<open>theano.function(..., cost, updates=updates)\<close> compiles the pair into
  \<open>train_crbm\<close>, which evaluates the cost and the updates and then assigns the new values
  (\<open>train_step\<close>); \<open>train_batch\<close> is the call of \<open>get_cost_updates\<close> followed by one run of
  the compiled function.
\<close>

definition apply_updates :: "updates \<Rightarrow> crbm \<Rightarrow> crbm" where
  "apply_updates upd self =
     self\<lparr>W := (case new_value upd Param_W of Some (Mat m) \<Rightarrow> m | _ \<Rightarrow> W self),
          A := (case new_value upd Param_A of Some (Mat m) \<Rightarrow> m | _ \<Rightarrow> A self),
          B := (case new_value upd Param_B of Some (Mat m) \<Rightarrow> m | _ \<Rightarrow> B self),
          hbias := (case new_value upd Param_hbias of Some (Vec v) \<Rightarrow> v | _ \<Rightarrow> hbias self),
          vbias := (case new_value upd Param_vbias of Some (Vec v) \<Rightarrow> v | _ \<Rightarrow> vbias self),
          theano_rng := new_stream upd\<rparr>"

definition train_step :: "(crbm \<Rightarrow> (real \<times> updates) option) \<Rightarrow> crbm \<Rightarrow> (real \<times> crbm) option" where
  "train_step f self = do {
     (c, upd) \<leftarrow> f self;
     Some (c, apply_updates upd self)
   }"

definition train_batch :: "crbm \<Rightarrow> real \<Rightarrow> int \<Rightarrow> (real \<times> crbm) option" where
  "train_batch self lr k = do {
     (f, self1) \<leftarrow> get_cost_updates self lr k;
     train_step f self1
   }"

text \<open>The values of the five parameters of an object.\<close>

definition parameters :: "crbm \<Rightarrow> mat \<times> mat \<times> mat \<times> vec \<times> vec" where
  "parameters self = (W self, A self, B self, hbias self, vbias self)"

section \<open>The chain as an iteration\<close>

text \<open>
  The negative phase as the specification words it: the state of the chain is the current
  hidden sample (with the object, whose random stream the sampling advances), one
  transition is \<open>gibbs_hvh\<close> on that state under the fixed history, and the chain is the
  transition iterated.
\<close>

definition hvh_transition :: "mat \<Rightarrow> mat \<times> crbm \<Rightarrow> (mat \<times> crbm) option" where
  "hvh_transition v_history st =
     map_option (\<lambda>(out, self'). (nh_sample out, self')) (gibbs_hvh (snd st) (fst st) v_history)"

fun iterate_hvh :: "mat \<Rightarrow> nat \<Rightarrow> mat \<times> crbm \<Rightarrow> (mat \<times> crbm) option" where
  "iterate_hvh v_history 0 st = Some st"
| "iterate_hvh v_history (Suc n) st =
     Option.bind (iterate_hvh v_history n st) (hvh_transition v_history)"

section \<open>Partial derivatives of the cost\<close>

text \<open>
  The two affine maps of \<open>free_energy\<close> and the free energy of one row, entry by entry;
  a parameter with one entry replaced; and what it means for a tensor to hold the partial
  derivatives of \<open>cost\<close> in the entries of a parameter, the chain end being a constant.
  The entry \<open>j\<close> of a vector is addressed as \<open>(0, j)\<close>. \<open>d_wx\<close>, \<open>d_ax\<close> and
  \<open>d_energy_row\<close> are the derivatives of the affine maps and of the row's free energy in
  entry \<open>(i0, j0)\<close> of a parameter.
\<close>

definition wx_b :: "crbm \<Rightarrow> mat \<Rightarrow> mat \<Rightarrow> nat \<Rightarrow> nat \<Rightarrow> real" where
  "wx_b self v h i j =
     (\<Sum>l<n_visible self. elem v i l * elem (W self) l j)
     + (\<Sum>t<n_visible self * delay self. elem h i t * elem (B self) t j)
     + vel (hbias self) j"

definition ax_b :: "crbm \<Rightarrow> mat \<Rightarrow> nat \<Rightarrow> nat \<Rightarrow> real" where
  "ax_b self h i j =
     (\<Sum>t<n_visible self * delay self. elem h i t * elem (A self) t j) + vel (vbias self) j"

definition energy_row :: "crbm \<Rightarrow> mat \<Rightarrow> mat \<Rightarrow> nat \<Rightarrow> real" where
  "energy_row self v h i =
     0.5 * (\<Sum>j<n_visible self. (elem v i j - ax_b self h i j)\<^sup>2)
     - (\<Sum>j<n_hidden self. ln (1 + exp (wx_b self v h i j)))"

definition set_elem :: "mat \<Rightarrow> nat \<Rightarrow> nat \<Rightarrow> real \<Rightarrow> mat" where
  "set_elem m i j t = m\<lparr>elem := (elem m)(i := (elem m i)(j := t))\<rparr>"

definition set_vel :: "vec \<Rightarrow> nat \<Rightarrow> real \<Rightarrow> vec" where
  "set_vel v j t = v\<lparr>vel := (vel v)(j := t)\<rparr>"

fun with_entry :: "crbm \<Rightarrow> param \<Rightarrow> nat \<Rightarrow> nat \<Rightarrow> real \<Rightarrow> crbm" where
  "with_entry self Param_W i j t = self\<lparr>W := set_elem (W self) i j t\<rparr>"
| "with_entry self Param_A i j t = self\<lparr>A := set_elem (A self) i j t\<rparr>"
| "with_entry self Param_B i j t = self\<lparr>B := set_elem (B self) i j t\<rparr>"
| "with_entry self Param_hbias i j t = self\<lparr>hbias := set_vel (hbias self) j t\<rparr>"
| "with_entry self Param_vbias i j t = self\<lparr>vbias := set_vel (vbias self) j t\<rparr>"

fun entry :: "tensor \<Rightarrow> nat \<Rightarrow> nat \<Rightarrow> real" where
  "entry (Mat m) i j = elem m i j"
| "entry (Vec v) i j = vel v j"

fun in_range :: "tensor \<Rightarrow> nat \<Rightarrow> nat \<Rightarrow> bool" where
  "in_range (Mat m) i j \<longleftrightarrow> i < nrows m \<and> j < ncols m"
| "in_range (Vec v) i j \<longleftrightarrow> i = 0 \<and> j < vlen v"

fun d_wx :: "param \<Rightarrow> nat \<Rightarrow> nat \<Rightarrow> mat \<Rightarrow> mat \<Rightarrow> nat \<Rightarrow> nat \<Rightarrow> real" where
  "d_wx Param_W i0 j0 v h i j = (if j = j0 then elem v i i0 else 0)"
| "d_wx Param_B i0 j0 v h i j = (if j = j0 then elem h i i0 else 0)"
| "d_wx Param_hbias i0 j0 v h i j = (if j = j0 then 1 else 0)"
| "d_wx Param_A i0 j0 v h i j = 0"
| "d_wx Param_vbias i0 j0 v h i j = 0"

fun d_ax :: "param \<Rightarrow> nat \<Rightarrow> nat \<Rightarrow> mat \<Rightarrow> nat \<Rightarrow> nat \<Rightarrow> real" where
  "d_ax Param_A i0 j0 h i j = (if j = j0 then elem h i i0 else 0)"
| "d_ax Param_vbias i0 j0 h i j = (if j = j0 then 1 else 0)"
| "d_ax Param_W i0 j0 h i j = 0"
| "d_ax Param_B i0 j0 h i j = 0"
| "d_ax Param_hbias i0 j0 h i j = 0"

fun shape :: "tensor \<Rightarrow> nat list" where
  "shape (Mat m) = [nrows m, ncols m]"
| "shape (Vec v) = [vlen v]"

definition partial_derivatives :: "crbm \<Rightarrow> mat \<Rightarrow> param \<Rightarrow> tensor \<Rightarrow> bool" where
  "partial_derivatives self chain_end p g \<longleftrightarrow>
     (\<forall>i j. in_range (value_of self p) i j \<longrightarrow>
        ((\<lambda>t. fst (the (cost (with_entry self p i j t) chain_end)))
           has_real_derivative entry g i j) (at (entry (value_of self p) i j)))"

definition d_energy_row :: "crbm \<Rightarrow> param \<Rightarrow> nat \<Rightarrow> nat \<Rightarrow> mat \<Rightarrow> mat \<Rightarrow> nat \<Rightarrow> real" where
  "d_energy_row self p i0 j0 v h i =
     (\<Sum>j<n_visible self. - ((elem v i j - ax_b self h i j) * d_ax p i0 j0 h i j))
     - (\<Sum>j<n_hidden self. sigmoid (wx_b self v h i j) * d_wx p i0 j0 v h i j)"

section \<open>Shapes and sample values\<close>

text \<open>A batch of hidden vectors with its history windows.\<close>

definition hidden_ok :: "crbm \<Rightarrow> mat \<Rightarrow> mat \<Rightarrow> bool" where
  "hidden_ok self h v_history \<longleftrightarrow>
     ncols h = n_hidden self \<and> nrows v_history = nrows h \<and>
     ncols v_history = n_visible self * delay self"

text \<open>A matrix whose entries are all zero.\<close>

definition zero_on :: "mat \<Rightarrow> bool" where
  "zero_on m \<longleftrightarrow> (\<forall>i<nrows m. \<forall>j<ncols m. elem m i j = 0)"

text \<open>A one-unit model with zero \<open>W\<close> and \<open>B\<close>, and the same model with \<open>A\<close> zero as well.\<close>

definition const_mat :: "nat \<Rightarrow> nat \<Rightarrow> real \<Rightarrow> mat" where
  "const_mat r c x = \<lparr>nrows = r, ncols = c, elem = \<lambda>i j. x\<rparr>"

definition const_vec :: "nat \<Rightarrow> real \<Rightarrow> vec" where
  "const_vec n x = \<lparr>vlen = n, vel = \<lambda>i. x\<rparr>"

definition example_crbm :: crbm where
  "example_crbm = \<lparr>n_visible = 1, n_hidden = 1, delay = 1,
     W = const_mat 1 1 0, A = const_mat 1 1 2, B = const_mat 1 1 0,
     hbias = const_vec 1 0, vbias = const_vec 1 3,
     theano_rng = \<lparr>draws = \<lambda>n. 3 / 4, pos = 0\<rparr>,
     input = const_mat 1 1 1, input_history = const_mat 1 1 1\<rparr>"

definition zero_crbm :: crbm where
  "zero_crbm = example_crbm\<lparr>A := const_mat 1 1 0\<rparr>"

text \<open>
  The draws that make an entry of probability \<open>p\<close> come out as 1: a uniform draw lies in
  [0, 1), and the entry is what the sampler makes of it.
\<close>

definition success :: "real \<Rightarrow> real \<Rightarrow> bool" where
  "success p u \<longleftrightarrow> 0 \<le> u \<and> u < 1 \<and> rk_binomial u p = 1"

section \<open>The free energy and the conditionals\<close>

lemmas example_defs = example_crbm_def zero_crbm_def const_mat_def const_vec_def shapes_ok_def
  batch_ok_def hidden_ok_def zero_on_def

text \<open>C3: on a batch of the model's shapes, the free energy of row \<open>i\<close> is the
  visible term minus the hidden term of that row.\<close>

theorem free_energy_formula:
  assumes "shapes_ok self" and "batch_ok self v v_history"
  shows "free_energy self v v_history =
    Some (\<lparr>vlen = nrows v,
          vel = \<lambda>i.
            0.5 * (\<Sum>j<n_visible self.
               (elem v i j - ((\<Sum>t<n_visible self * delay self. elem v_history i t * elem (A self) t j)
                  + vel (vbias self) j))\<^sup>2)
            - (\<Sum>j<n_hidden self.
               ln (1 + exp ((\<Sum>l<n_visible self. elem v i l * elem (W self) l j)
                  + (\<Sum>t<n_visible self * delay self. elem v_history i t * elem (B self) t j)
                  + vel (hbias self) j)))\<rparr>, self)"
  using assms
  by (simp add: free_energy_def shapes_ok_def batch_ok_def dot_def add_def add_row_def sub_def
      sub_vec_def sum_axis1_def map_mat_def sqr_def power2_eq_square sum_distrib_left)

theorem free_energy_formula_witness:
  "shapes_ok example_crbm \<and> batch_ok example_crbm (const_mat 1 1 1) (const_mat 1 1 1) \<and>
   free_energy example_crbm (const_mat 1 1 1) (const_mat 1 1 1)
     = Some (\<lparr>vlen = 1, vel = \<lambda>i. 8 - ln 2\<rparr>, example_crbm)"
  using free_energy_formula [of example_crbm "const_mat 1 1 1" "const_mat 1 1 1"]
  by (simp add: example_defs)

text \<open>C6: \<open>propup\<close> returns the pre-activation and its sigmoid, in that order, as two
  matrices.\<close>

theorem propup_formula:
  assumes "shapes_ok self" and "batch_ok self v v_history"
  shows "propup self v v_history =
    Some ((\<lparr>nrows = nrows v, ncols = n_hidden self,
            elem = \<lambda>i j. (\<Sum>l<n_visible self. elem v i l * elem (W self) l j)
                  + (\<Sum>t<n_visible self * delay self. elem v_history i t * elem (B self) t j)
                  + vel (hbias self) j\<rparr>,
          \<lparr>nrows = nrows v, ncols = n_hidden self,
            elem = \<lambda>i j. 1 / (1 + exp (- ((\<Sum>l<n_visible self. elem v i l * elem (W self) l j)
                  + (\<Sum>t<n_visible self * delay self. elem v_history i t * elem (B self) t j)
                  + vel (hbias self) j)))\<rparr>), self)"
  using assms
  by (simp add: propup_def shapes_ok_def batch_ok_def dot_def add_def add_row_def
      map_mat_def sigmoid_def)

theorem propup_formula_witness:
  "shapes_ok example_crbm \<and> batch_ok example_crbm (const_mat 1 1 1) (const_mat 1 1 1) \<and>
   propup example_crbm (const_mat 1 1 1) (const_mat 1 1 1) =
     Some ((\<lparr>nrows = 1, ncols = 1, elem = \<lambda>i j. 0\<rparr>, \<lparr>nrows = 1, ncols = 1, elem = \<lambda>i j. 1 / 2\<rparr>),
           example_crbm)"
  using propup_formula [of example_crbm "const_mat 1 1 1" "const_mat 1 1 1"]
  by (simp add: example_defs)


text \<open>C4: \<open>sample_v_given_h\<close> returns the mean-field activation twice, the second time as
  the sample: there is no sigmoid and no noise, and the result does not depend on the
  random stream.\<close>

theorem sample_v_given_h_mean_field:
  assumes "shapes_ok self" and "hidden_ok self h v_history"
  shows "sample_v_given_h self h v_history =
      Some ((\<lparr>nrows = nrows h, ncols = n_visible self,
              elem = \<lambda>i j. (\<Sum>l<n_hidden self. elem h i l * elem (W self) j l)
                    + (\<Sum>t<n_visible self * delay self. elem v_history i t * elem (A self) t j)
                    + vel (vbias self) j\<rparr>,
            \<lparr>nrows = nrows h, ncols = n_visible self,
              elem = \<lambda>i j. (\<Sum>l<n_hidden self. elem h i l * elem (W self) j l)
                    + (\<Sum>t<n_visible self * delay self. elem v_history i t * elem (A self) t j)
                    + vel (vbias self) j\<rparr>), self)
    \<and> map_option fst (sample_v_given_h (self\<lparr>theano_rng := g\<rparr>) h v_history)
        = map_option fst (sample_v_given_h self h v_history)"
  using assms
  by (simp add: sample_v_given_h_def propdown_def shapes_ok_def hidden_ok_def dot_def add_def
      add_row_def transpose_mat_def)

theorem sample_v_given_h_mean_field_witness:
  "shapes_ok example_crbm \<and> hidden_ok example_crbm (const_mat 1 1 1) (const_mat 1 1 1) \<and>
   sample_v_given_h example_crbm (const_mat 1 1 1) (const_mat 1 1 1) =
     Some ((\<lparr>nrows = 1, ncols = 1, elem = \<lambda>i j. 5\<rparr>, \<lparr>nrows = 1, ncols = 1, elem = \<lambda>i j. 5\<rparr>),
           example_crbm)"
  using sample_v_given_h_mean_field [of example_crbm "const_mat 1 1 1" "const_mat 1 1 1"]
  by (simp add: example_defs)

lemma sigmoid_range: "0 < sigmoid x \<and> sigmoid x < 1"
proof -
  have "0 < exp (- x)" by simp
  then show ?thesis by (simp add: sigmoid_def add_pos_pos)
qed

lemma rk_binomial_cases: "rk_binomial u p = 0 \<or> rk_binomial u p = 1"
  by (simp add: rk_binomial_def binomial_inversion_def)

lemma binomial_sigmoid:
  "binomial g (map_mat sigmoid a) =
     Some (\<lparr>nrows = nrows a, ncols = ncols a,
             elem = \<lambda>i j. rk_binomial (draws g (pos g + i * ncols a + j)) (sigmoid (elem a i j))\<rparr>,
           g\<lparr>pos := pos g + nrows a * ncols a\<rparr>)"
  using sigmoid_range by (simp add: binomial_def map_mat_def less_imp_le)

lemma success_interval:
  assumes "0 \<le> p" and "p \<le> 1"
  shows "\<exists>lo hi. hi - lo = p \<and> (\<forall>u. lo < u \<and> u < hi \<longrightarrow> success p u) \<and>
     (\<forall>u. success p u \<longrightarrow> lo \<le> u \<and> u \<le> hi)"
proof (cases "p \<le> 1 / 2")
  case True
  have "1 - (1 - p) = p" by simp
  moreover have "\<forall>u. 1 - p < u \<and> u < 1 \<longrightarrow> success p u"
    using True assms by (auto simp add: success_def rk_binomial_def binomial_inversion_def)
  moreover have "\<forall>u. success p u \<longrightarrow> 1 - p \<le> u \<and> u \<le> 1"
    using True by (auto simp add: success_def rk_binomial_def binomial_inversion_def
        split: if_splits)
  ultimately show ?thesis by blast
next
  case False
  have "p - 0 = p" by simp
  moreover have "\<forall>u. 0 < u \<and> u < p \<longrightarrow> success p u"
    using False assms by (auto simp add: success_def rk_binomial_def binomial_inversion_def)
  moreover have "\<forall>u. success p u \<longrightarrow> 0 \<le> u \<and> u \<le> p"
    using False by (auto simp add: success_def rk_binomial_def binomial_inversion_def
        split: if_splits)
  ultimately show ?thesis by blast
qed

lemma card_above:
  fixes a :: real
  assumes "0 \<le> a"
  shows "card {m::nat. m < N \<and> a < real m} = N - (nat \<lfloor>a\<rfloor> + 1)"
proof -
  have "{m::nat. m < N \<and> a < real m} = {nat \<lfloor>a\<rfloor> + 1..<N}"
  proof (rule set_eqI)
    fix m :: nat
    have "a < real m \<longleftrightarrow> \<lfloor>a\<rfloor> < int m"
      by (simp add: floor_less_iff)
    also have "\<dots> \<longleftrightarrow> nat \<lfloor>a\<rfloor> + 1 \<le> m"
      using assms by linarith
    finally show "m \<in> {m::nat. m < N \<and> a < real m} \<longleftrightarrow> m \<in> {nat \<lfloor>a\<rfloor> + 1..<N}"
      by auto
  qed
  then show ?thesis by simp
qed

lemma card_below:
  fixes a :: real
  assumes "0 \<le> a"
  shows "card {m::nat. m < N \<and> real m \<le> a} = min N (nat \<lfloor>a\<rfloor> + 1)"
proof -
  have "{m::nat. m < N \<and> real m \<le> a} = {..<min N (nat \<lfloor>a\<rfloor> + 1)}"
  proof (rule set_eqI)
    fix m :: nat
    have "real m \<le> a \<longleftrightarrow> int m \<le> \<lfloor>a\<rfloor>"
      by (simp add: le_floor_iff)
    also have "\<dots> \<longleftrightarrow> m < nat \<lfloor>a\<rfloor> + 1"
      using assms by linarith
    finally show "m \<in> {m::nat. m < N \<and> real m \<le> a} \<longleftrightarrow> m \<in> {..<min N (nat \<lfloor>a\<rfloor> + 1)}"
      by auto
  qed
  then show ?thesis by simp
qed

lemma success_frequency:
  assumes p: "0 \<le> p" "p \<le> 1" and N: "0 < N"
  shows "\<bar>real (card {m. m < N \<and> success p (real m / real N)}) - p * real N\<bar> \<le> 1"
proof (cases "p \<le> 1 / 2")
  case True
  let ?a = "real N * (1 - p)"
  have a0: "0 \<le> ?a" using p by simp
  have "{m. m < N \<and> success p (real m / real N)} = {m. m < N \<and> ?a < real m}"
    using True N by (auto simp add: success_def rk_binomial_def binomial_inversion_def
        field_simps split: if_splits)
  then have c: "card {m. m < N \<and> success p (real m / real N)} = N - (nat \<lfloor>?a\<rfloor> + 1)"
    using card_above [OF a0, of N] by simp
  have f: "real (nat \<lfloor>?a\<rfloor>) \<le> ?a" "?a < real (nat \<lfloor>?a\<rfloor>) + 1"
    using a0 by linarith+
  have e: "?a = real N - p * real N" by (simp add: algebra_simps)
  show ?thesis
  proof (cases "nat \<lfloor>?a\<rfloor> + 1 \<le> N")
    case True
    then have "real (N - (nat \<lfloor>?a\<rfloor> + 1)) = real N - real (nat \<lfloor>?a\<rfloor>) - 1" by simp
    then show ?thesis unfolding c using f e by linarith
  next
    case False
    then have z: "N - (nat \<lfloor>?a\<rfloor> + 1) = 0" by simp
    have "real N \<le> real (nat \<lfloor>?a\<rfloor>)" using False by simp
    then have "p * real N \<le> 0" using f e by linarith
    moreover have "0 \<le> p * real N" using p by simp
    ultimately have pz: "p * real N = 0" by linarith
    show ?thesis unfolding c z pz by simp
  qed
next
  case False
  let ?a = "p * real N"
  have a0: "0 \<le> ?a" using p by simp
  have "{m. m < N \<and> success p (real m / real N)} = {m. m < N \<and> real m \<le> ?a}"
    using False N by (auto simp add: success_def rk_binomial_def binomial_inversion_def
        field_simps split: if_splits)
  then have c: "card {m. m < N \<and> success p (real m / real N)} = min N (nat \<lfloor>?a\<rfloor> + 1)"
    using card_below [OF a0, of N] by simp
  have f: "real (nat \<lfloor>?a\<rfloor>) \<le> ?a" "?a < real (nat \<lfloor>?a\<rfloor>) + 1"
    using a0 by linarith+
  have le: "?a \<le> real N" using p by (simp add: mult_left_le_one_le)
  show ?thesis
  proof (cases "nat \<lfloor>?a\<rfloor> + 1 \<le> N")
    case True
    then have "real (min N (nat \<lfloor>?a\<rfloor> + 1)) = real (nat \<lfloor>?a\<rfloor>) + 1" by simp
    then show ?thesis unfolding c using f by linarith
  next
    case False
    then have m: "min N (nat \<lfloor>?a\<rfloor> + 1) = N" by simp
    have "real N \<le> real (nat \<lfloor>?a\<rfloor>)" using False by simp
    then show ?thesis unfolding c m using f le by linarith
  qed
qed

text \<open>C5: \<open>sample_h_given_v\<close> returns the pre-activation and the probability of \<open>propup\<close>
  and a sample of their shape. Every entry of the sample is 0 or 1. An entry is the
  library's Bernoulli draw for its own probability, the sigmoid of its pre-activation,
  made from its own uniform draw of the stream, and different entries read different
  draws; the uniform draws in [0, 1) for which an entry comes out as 1 form an interval
  whose length is that probability, and among \<open>N\<close> equally spaced draws \<open>m / N\<close> the
  number for which it comes out as 1 is within 1 of \<open>N\<close> times that probability.\<close>

theorem sample_h_given_v_bernoulli:
  assumes "shapes_ok self" and "batch_ok self v v_history"
  shows "\<exists>a p s g. propup self v v_history = Some ((a, p), self)
     \<and> sample_h_given_v self v v_history = Some ((a, p, s), self\<lparr>theano_rng := g\<rparr>)
     \<and> nrows s = nrows v \<and> ncols s = n_hidden self
     \<and> (\<forall>i j. elem p i j = sigmoid (elem a i j))
     \<and> (\<forall>i j. elem s i j = 0 \<or> elem s i j = 1)
     \<and> (\<forall>i j. elem s i j =
           rk_binomial (draws (theano_rng self) (pos (theano_rng self) + i * n_hidden self + j))
             (elem p i j))
     \<and> (\<forall>i j. \<exists>lo hi. hi - lo = elem p i j \<and>
           (\<forall>u. lo < u \<and> u < hi \<longrightarrow> success (elem p i j) u) \<and>
           (\<forall>u. success (elem p i j) u \<longrightarrow> lo \<le> u \<and> u \<le> hi))
     \<and> (\<forall>i j N. 0 < N \<longrightarrow>
           \<bar>real (card {m. m < N \<and> success (elem p i j) (real m / real N)})
              - elem p i j * real N\<bar> \<le> 1)
     \<and> (\<forall>i j i' j'. j < n_hidden self \<and> j' < n_hidden self \<and> (i, j) \<noteq> (i', j') \<longrightarrow>
           pos (theano_rng self) + i * n_hidden self + j
             \<noteq> pos (theano_rng self) + i' * n_hidden self + j')
     \<and> draws g = draws (theano_rng self)
     \<and> pos g = pos (theano_rng self) + nrows v * n_hidden self"
proof -
  have inj: "i * n + j \<noteq> i' * n + j'" if "j < n" "j' < n" "(i, j) \<noteq> (i', j')"
    for i j i' j' n :: nat
  proof
    assume e: "i * n + j = i' * n + j'"
    have "(i * n + j) div n = i" "(i * n + j) mod n = j" using that by simp_all
    moreover have "(i' * n + j') div n = i'" "(i' * n + j') mod n = j'" using that by simp_all
    ultimately show False using e that by metis
  qed
  let ?a = "\<lparr>nrows = nrows v, ncols = n_hidden self,
      elem = \<lambda>i j. (\<Sum>l<n_visible self. elem v i l * elem (W self) l j)
         + (\<Sum>t<n_visible self * delay self. elem v_history i t * elem (B self) t j)
         + vel (hbias self) j\<rparr>"
  let ?g = "theano_rng self"
  let ?s = "\<lparr>nrows = nrows v, ncols = n_hidden self,
      elem = \<lambda>i j. rk_binomial (draws ?g (pos ?g + i * n_hidden self + j)) (sigmoid (elem ?a i j))\<rparr>"
  have pu: "propup self v v_history = Some ((?a, map_mat sigmoid ?a), self)"
    using assms
    by (simp add: propup_def shapes_ok_def batch_ok_def dot_def add_def add_row_def)
  have sh: "sample_h_given_v self v v_history =
      Some ((?a, map_mat sigmoid ?a, ?s), self\<lparr>theano_rng := ?g\<lparr>pos := pos ?g + nrows v * n_hidden self\<rparr>\<rparr>)"
    by (simp add: sample_h_given_v_def pu binomial_sigmoid)
  have pr: "\<exists>lo hi. hi - lo = elem (map_mat sigmoid ?a) i j \<and>
           (\<forall>u. lo < u \<and> u < hi \<longrightarrow> success (elem (map_mat sigmoid ?a) i j) u) \<and>
           (\<forall>u. success (elem (map_mat sigmoid ?a) i j) u \<longrightarrow> lo \<le> u \<and> u \<le> hi)" for i j
    using sigmoid_range by (intro success_interval) (simp_all add: map_mat_def less_imp_le)
  have fr: "\<forall>i j N. 0 < N \<longrightarrow>
           \<bar>real (card {m. m < N \<and> success (elem (map_mat sigmoid ?a) i j) (real m / real N)})
              - elem (map_mat sigmoid ?a) i j * real N\<bar> \<le> 1"
    using sigmoid_range by (intro allI impI success_frequency) (simp_all add: map_mat_def less_imp_le)
  have vals: "\<forall>i j. elem ?s i j = 0 \<or> elem ?s i j = 1"
    using rk_binomial_cases by simp
  show ?thesis
    apply (rule exI [of _ ?a], rule exI [of _ "map_mat sigmoid ?a"], rule exI [of _ ?s])
    apply (rule exI [of _ "?g\<lparr>pos := pos ?g + nrows v * n_hidden self\<rparr>"])
    apply (intro conjI pu sh vals fr allI pr)
    apply (simp_all add: map_mat_def)
    apply (auto dest: inj)
    done
qed

theorem sample_h_given_v_bernoulli_witness:
  "shapes_ok example_crbm \<and> batch_ok example_crbm (const_mat 1 1 1) (const_mat 1 1 1) \<and>
   sample_h_given_v example_crbm (const_mat 1 1 1) (const_mat 1 1 1) =
     Some ((\<lparr>nrows = 1, ncols = 1, elem = \<lambda>i j. 0\<rparr>,
            \<lparr>nrows = 1, ncols = 1, elem = \<lambda>i j. 1 / 2\<rparr>,
            \<lparr>nrows = 1, ncols = 1, elem = \<lambda>i j. 1\<rparr>),
           example_crbm\<lparr>theano_rng := \<lparr>draws = \<lambda>n. 3 / 4, pos = 1\<rparr>\<rparr>)"
  using sample_h_given_v_bernoulli [of example_crbm "const_mat 1 1 1" "const_mat 1 1 1"]
  by (simp add: example_defs sample_h_given_v_def propup_def binomial_def rk_binomial_def
      binomial_inversion_def dot_def add_def add_row_def map_mat_def sigmoid_def)

text \<open>C8: with \<open>W\<close>, \<open>A\<close> and \<open>B\<close> zero, the free energy of a row is half the squared
  distance of the row to \<open>vbias\<close>, minus \<open>n_hidden * ln 2\<close>, plus a sum over the hidden
  units that depends on \<open>hbias\<close> only; with \<open>hbias\<close> zero as well the last sum vanishes.\<close>

theorem free_energy_zero_weights:
  assumes "shapes_ok self" and "batch_ok self v v_history"
    and "zero_on (W self)" and "zero_on (A self)" and "zero_on (B self)"
  shows "free_energy self v v_history =
      Some (\<lparr>vlen = nrows v,
            vel = \<lambda>i. 0.5 * (\<Sum>j<n_visible self. (elem v i j - vel (vbias self) j)\<^sup>2)
               - real (n_hidden self) * ln 2
               + (\<Sum>j<n_hidden self. ln 2 - ln (1 + exp (vel (hbias self) j)))\<rparr>, self)
    \<and> ((\<forall>j<n_hidden self. vel (hbias self) j = 0) \<longrightarrow>
        free_energy self v v_history =
          Some (\<lparr>vlen = nrows v,
                vel = \<lambda>i. 0.5 * (\<Sum>j<n_visible self. (elem v i j - vel (vbias self) j)\<^sup>2)
                   - real (n_hidden self) * ln 2\<rparr>, self))"
proof -
  have w: "(\<Sum>l<n_visible self. elem v i l * elem (W self) l j) = 0" if "j < n_hidden self" for i j
    using assms(1,3) that by (simp add: zero_on_def shapes_ok_def)
  have b: "(\<Sum>t<n_visible self * delay self. elem v_history i t * elem (B self) t j) = 0"
    if "j < n_hidden self" for i j
    using assms(1,5) that by (simp add: zero_on_def shapes_ok_def)
  have a: "(\<Sum>t<n_visible self * delay self. elem v_history i t * elem (A self) t j) = 0"
    if "j < n_visible self" for i j
    using assms(1,4) that by (simp add: zero_on_def shapes_ok_def)
  have main: "free_energy self v v_history =
      Some (\<lparr>vlen = nrows v,
            vel = \<lambda>i. 0.5 * (\<Sum>j<n_visible self. (elem v i j - vel (vbias self) j)\<^sup>2)
               - (\<Sum>j<n_hidden self. ln (1 + exp (vel (hbias self) j)))\<rparr>, self)"
    using assms(1,2)
    by (simp add: free_energy_def shapes_ok_def batch_ok_def dot_def add_def add_row_def sub_def
        sub_vec_def sum_axis1_def map_mat_def sqr_def power2_eq_square sum_distrib_left w b a)
  have split: "- (\<Sum>j<n_hidden self. ln (1 + exp (vel (hbias self) j)))
      = - real (n_hidden self) * ln 2
        + (\<Sum>j<n_hidden self. ln 2 - ln (1 + exp (vel (hbias self) j)))"
    by (simp add: sum_subtractf)
  have zero: "(\<Sum>j<n_hidden self. ln (1 + exp (vel (hbias self) j))) = real (n_hidden self) * ln 2"
    if "\<forall>j<n_hidden self. vel (hbias self) j = 0"
    using that by simp
  have first: "free_energy self v v_history =
      Some (\<lparr>vlen = nrows v,
            vel = \<lambda>i. 0.5 * (\<Sum>j<n_visible self. (elem v i j - vel (vbias self) j)\<^sup>2)
               - real (n_hidden self) * ln 2
               + (\<Sum>j<n_hidden self. ln 2 - ln (1 + exp (vel (hbias self) j)))\<rparr>, self)"
    unfolding main using split by (simp add: fun_eq_iff)
  have second: "free_energy self v v_history =
          Some (\<lparr>vlen = nrows v,
                vel = \<lambda>i. 0.5 * (\<Sum>j<n_visible self. (elem v i j - vel (vbias self) j)\<^sup>2)
                   - real (n_hidden self) * ln 2\<rparr>, self)"
    if "\<forall>j<n_hidden self. vel (hbias self) j = 0"
    unfolding main using zero [OF that] by simp
  show ?thesis
    using first second by blast
qed


theorem free_energy_zero_weights_witness:
  "shapes_ok zero_crbm \<and> batch_ok zero_crbm (const_mat 1 1 1) (const_mat 1 1 1) \<and>
   zero_on (W zero_crbm) \<and> zero_on (A zero_crbm) \<and> zero_on (B zero_crbm) \<and>
   vel (hbias zero_crbm) 0 = 0 \<and>
   free_energy zero_crbm (const_mat 1 1 1) (const_mat 1 1 1)
     = Some (\<lparr>vlen = 1, vel = \<lambda>i. 2 - ln 2\<rparr>, zero_crbm)"
  using free_energy_zero_weights [of zero_crbm "const_mat 1 1 1" "const_mat 1 1 1"]
  by (simp add: example_defs)

section \<open>The object after a call\<close>

lemma free_energy_frame: "free_energy self v h = Some (r, self') \<Longrightarrow> self' = self"
  by (auto simp add: free_energy_def Let_def split: Option.bind_splits)

lemma propup_frame: "propup self v h = Some (r, self') \<Longrightarrow> self' = self"
  by (auto simp add: propup_def split: Option.bind_splits)

lemma propdown_frame: "propdown self hid h = Some (r, self') \<Longrightarrow> self' = self"
  by (auto simp add: propdown_def split: Option.bind_splits)

lemma sample_v_given_h_frame: "sample_v_given_h self hid h = Some (r, self') \<Longrightarrow> self' = self"
  by (auto simp add: sample_v_given_h_def split: Option.bind_splits dest: propdown_frame)

lemma sample_h_given_v_frame:
  "sample_h_given_v self v h = Some (r, self') \<Longrightarrow> \<exists>g. self' = self\<lparr>theano_rng := g\<rparr>"
  by (auto simp add: sample_h_given_v_def split: Option.bind_splits dest!: propup_frame)

lemma gibbs_hvh_frame:
  "gibbs_hvh self v h = Some (r, self') \<Longrightarrow> \<exists>g. self' = self\<lparr>theano_rng := g\<rparr>"
  by (auto simp add: gibbs_hvh_def split: Option.bind_splits
      dest!: sample_h_given_v_frame sample_v_given_h_frame)

lemma gibbs_vhv_frame:
  "gibbs_vhv self v h = Some (r, self') \<Longrightarrow> \<exists>g. self' = self\<lparr>theano_rng := g\<rparr>"
proof -
  assume a: "gibbs_vhv self v h = Some (r, self')"
  then obtain r1 s1 r2 where
    h: "sample_h_given_v self v h = Some (r1, s1)" and
    v: "sample_v_given_h s1 (snd (snd r1)) h = Some (r2, self')"
    by (auto simp add: gibbs_vhv_def split: Option.bind_splits)
  from sample_v_given_h_frame [OF v] sample_h_given_v_frame [OF h] show ?thesis by simp
qed

lemma scan_steps_frame:
  "scan_steps gibbs_hvh self h v n = Some (outs, self') \<Longrightarrow> \<exists>g. self' = self\<lparr>theano_rng := g\<rparr>"
proof (induction n arbitrary: self h outs)
  case 0
  then have "self' = self\<lparr>theano_rng := theano_rng self\<rparr>" by simp
  then show ?case by blast
next
  case (Suc n)
  from Suc.prems obtain out s1 outs' where
    step: "gibbs_hvh self h v = Some (out, s1)" and
    rest: "scan_steps gibbs_hvh s1 (nh_sample out) v n = Some (outs', self')"
    by (auto simp add: nh_sample_def split: Option.bind_splits prod.splits)
  from gibbs_hvh_frame [OF step] obtain g where "s1 = self\<lparr>theano_rng := g\<rparr>" by blast
  moreover from Suc.IH [OF rest] obtain g' where "self' = s1\<lparr>theano_rng := g'\<rparr>" by blast
  ultimately have "self' = self\<lparr>theano_rng := g'\<rparr>" by simp
  then show ?case by blast
qed

lemma scan_positive: "1 \<le> k \<Longrightarrow> scan fn self h v (int k) = scan_steps fn self h v k"
  by (cases "k = 1") (simp_all add: scan_def)

section \<open>The chain\<close>

lemma iterate_hvh_front:
  "iterate_hvh v (Suc n) st = Option.bind (hvh_transition v st) (iterate_hvh v n)"
proof (induction n)
  case 0
  show ?case by simp
next
  case (Suc n)
  have "iterate_hvh v (Suc (Suc n)) st
      = Option.bind (iterate_hvh v (Suc n) st) (hvh_transition v)" by simp
  also have "\<dots> = Option.bind (Option.bind (hvh_transition v st) (iterate_hvh v n)) (hvh_transition v)"
    by (simp only: Suc.IH)
  also have "\<dots> = Option.bind (hvh_transition v st) (iterate_hvh v (Suc n))"
    by (cases "hvh_transition v st") simp_all
  finally show ?case .
qed

lemma scan_steps_iterate:
  "scan_steps gibbs_hvh self h v n = Some (outs, self') \<Longrightarrow>
     length outs = n \<and>
     iterate_hvh v n (h, self) = Some (if n = 0 then h else nh_sample (last outs), self') \<and>
     (\<forall>i<n. \<exists>hi si si'. iterate_hvh v i (h, self) = Some (hi, si) \<and>
        gibbs_hvh si hi v = Some (outs ! i, si'))"
proof (induction n arbitrary: self h outs)
  case 0
  then show ?case by simp
next
  case (Suc n)
  from Suc.prems obtain out s1 outs' where
    step: "gibbs_hvh self h v = Some (out, s1)" and
    rest: "scan_steps gibbs_hvh s1 (nh_sample out) v n = Some (outs', self')" and
    outs: "outs = out # outs'"
    by (auto simp add: nh_sample_def split: Option.bind_splits prod.splits)
  note ih = Suc.IH [OF rest]
  have tr: "hvh_transition v (h, self) = Some (nh_sample out, s1)"
    by (simp add: hvh_transition_def step)
  have len: "length outs = Suc n" using ih outs by simp
  have it: "iterate_hvh v (Suc n) (h, self) = Some (nh_sample (last outs), self')"
  proof (cases n)
    case 0
    with rest have "outs' = []" "self' = s1" by simp_all
    then show ?thesis using outs tr 0 by simp
  next
    case (Suc m)
    then have "outs' \<noteq> []" using ih by auto
    then have l: "last outs = last outs'" using outs by simp
    have "iterate_hvh v (Suc n) (h, self) = iterate_hvh v n (nh_sample out, s1)"
      by (simp only: iterate_hvh_front tr Option.bind.simps)
    also have "\<dots> = Some (nh_sample (last outs'), self')" using ih Suc by simp
    finally show ?thesis using l by simp
  qed
  have each: "\<exists>hi si si'. iterate_hvh v i (h, self) = Some (hi, si) \<and>
        gibbs_hvh si hi v = Some (outs ! i, si')" if "i < Suc n" for i
  proof (cases i)
    case 0
    then show ?thesis using step outs by auto
  next
    case (Suc m)
    then have "m < n" using that by simp
    with ih obtain hi si si' where
      a: "iterate_hvh v m (nh_sample out, s1) = Some (hi, si)" and
      b: "gibbs_hvh si hi v = Some (outs' ! m, si')" by blast
    have "iterate_hvh v (Suc m) (h, self) = iterate_hvh v m (nh_sample out, s1)"
      by (simp only: iterate_hvh_front tr Option.bind.simps)
    then have "iterate_hvh v i (h, self) = Some (hi, si)" using a Suc by simp
    moreover have "gibbs_hvh si hi v = Some (outs ! i, si')" using b Suc outs by simp
    ultimately show ?thesis by blast
  qed
  show ?case using len it each by simp
qed


lemma shapes_ok_stream [simp]: "shapes_ok (self\<lparr>theano_rng := g\<rparr>) = shapes_ok self"
  by (simp add: shapes_ok_def)

lemma hidden_ok_stream [simp]: "hidden_ok (self\<lparr>theano_rng := g\<rparr>) h v = hidden_ok self h v"
  by (simp add: hidden_ok_def)

lemma batch_ok_stream [simp]: "batch_ok (self\<lparr>theano_rng := g\<rparr>) x v = batch_ok self x v"
  by (simp add: batch_ok_def)

lemma sample_h_given_v_shape:
  assumes "shapes_ok self" and "batch_ok self v h"
  shows "\<exists>a p s g. sample_h_given_v self v h = Some ((a, p, s), self\<lparr>theano_rng := g\<rparr>) \<and>
     hidden_ok self s h"
  using assms
  by (auto simp add: sample_h_given_v_def propup_def binomial_sigmoid shapes_ok_def batch_ok_def
      hidden_ok_def dot_def add_def add_row_def)

lemma sample_v_given_h_shape:
  assumes "shapes_ok self" and "hidden_ok self h v"
  shows "\<exists>m. sample_v_given_h self h v = Some ((m, m), self) \<and> batch_ok self m v \<and>
     nrows m = nrows h"
  using assms
  by (simp add: sample_v_given_h_def propdown_def shapes_ok_def batch_ok_def hidden_ok_def
      dot_def add_def add_row_def transpose_mat_def)

lemma gibbs_hvh_shape:
  assumes "shapes_ok self" and "hidden_ok self h v"
  shows "\<exists>out g. gibbs_hvh self h v = Some (out, self\<lparr>theano_rng := g\<rparr>) \<and>
     hidden_ok self (nh_sample out) v \<and> batch_ok self (nv_sample out) v \<and>
     nv_mean out = nv_sample out \<and> nrows (nv_sample out) = nrows h"
proof -
  from sample_v_given_h_shape [OF assms] obtain m where
    m: "sample_v_given_h self h v = Some ((m, m), self)" "batch_ok self m v" "nrows m = nrows h"
    by blast
  from sample_h_given_v_shape [OF assms(1) m(2)] obtain a p s g where
    s: "sample_h_given_v self m v = Some ((a, p, s), self\<lparr>theano_rng := g\<rparr>)" "hidden_ok self s v"
    by blast
  have "gibbs_hvh self h v = Some ((m, m, a, p, s), self\<lparr>theano_rng := g\<rparr>)"
    by (simp add: gibbs_hvh_def m s)
  then show ?thesis
    using m s by (auto simp add: nh_sample_def nv_sample_def nv_mean_def)
qed

lemma scan_steps_shape:
  assumes "shapes_ok self" and "hidden_ok self h v"
  shows "\<exists>outs g. scan_steps gibbs_hvh self h v n = Some (outs, self\<lparr>theano_rng := g\<rparr>) \<and>
     (\<forall>out\<in>set outs. batch_ok self (nv_sample out) v \<and> nv_mean out = nv_sample out \<and>
        nrows (nv_sample out) = nrows h)"
  using assms
proof (induction n arbitrary: self h)
  case 0
  have "self = self\<lparr>theano_rng := theano_rng self\<rparr>" by simp
  then show ?case by (metis scan_steps.simps(1) empty_iff list.set(1))
next
  case (Suc n)
  from gibbs_hvh_shape [OF Suc.prems] obtain out g where
    o: "gibbs_hvh self h v = Some (out, self\<lparr>theano_rng := g\<rparr>)"
       "hidden_ok self (nh_sample out) v" "batch_ok self (nv_sample out) v"
       "nv_mean out = nv_sample out" "nrows (nv_sample out) = nrows h"
    by blast
  let ?s = "self\<lparr>theano_rng := g\<rparr>"
  have "shapes_ok ?s" "hidden_ok ?s (nh_sample out) v" using Suc.prems o by simp_all
  from Suc.IH [OF this] obtain outs g' where
    r: "scan_steps gibbs_hvh ?s (nh_sample out) v n = Some (outs, ?s\<lparr>theano_rng := g'\<rparr>)"
       "\<forall>out'\<in>set outs. batch_ok ?s (nv_sample out') v \<and> nv_mean out' = nv_sample out' \<and>
          nrows (nv_sample out') = nrows (nh_sample out)"
    by blast
  have rows: "nrows (nh_sample out) = nrows h"
    using o(2) Suc.prems(2) by (simp add: hidden_ok_def)
  obtain a b c d e where out: "out = (a, b, c, d, e)" by (cases out) auto
  have "scan_steps gibbs_hvh self h v (Suc n) = Some (out # outs, self\<lparr>theano_rng := g'\<rparr>)"
    using o(1) r(1) by (simp add: out nh_sample_def)
  moreover have "\<forall>out'\<in>set (out # outs). batch_ok self (nv_sample out') v \<and>
      nv_mean out' = nv_sample out' \<and> nrows (nv_sample out') = nrows h"
    using o r(2) rows by simp
  ultimately show ?case by blast
qed

lemma negative_phase_shape:
  assumes "shapes_ok self" and "batch_ok self (input self) (input_history self)" and "1 \<le> k"
  shows "\<exists>a p s g outs g'.
     sample_h_given_v self (input self) (input_history self)
       = Some ((a, p, s), self\<lparr>theano_rng := g\<rparr>) \<and>
     scan_steps gibbs_hvh (self\<lparr>theano_rng := g\<rparr>) s (input_history self) k
       = Some (outs, self\<lparr>theano_rng := g'\<rparr>) \<and>
     negative_phase (int k) self = Some (outs, self\<lparr>theano_rng := g'\<rparr>) \<and>
     (\<forall>out\<in>set outs. batch_ok self (nv_sample out) (input_history self) \<and>
        nv_mean out = nv_sample out \<and> nrows (nv_sample out) = nrows (input self))"
proof -
  let ?v = "input_history self"
  from sample_h_given_v_shape [OF assms(1,2)] obtain a p s g where
    s: "sample_h_given_v self (input self) ?v = Some ((a, p, s), self\<lparr>theano_rng := g\<rparr>)"
       "hidden_ok self s ?v" by blast
  let ?s = "self\<lparr>theano_rng := g\<rparr>"
  have "shapes_ok ?s" "hidden_ok ?s s ?v" using assms s by simp_all
  from scan_steps_shape [OF this, of k] obtain outs g' where
    r: "scan_steps gibbs_hvh ?s s ?v k = Some (outs, ?s\<lparr>theano_rng := g'\<rparr>)"
       "\<forall>out\<in>set outs. batch_ok ?s (nv_sample out) ?v \<and> nv_mean out = nv_sample out \<and>
          nrows (nv_sample out) = nrows s" by blast
  have rows: "nrows s = nrows (input self)"
    using s(2) assms(2) by (simp add: hidden_ok_def batch_ok_def)
  have "negative_phase (int k) self = Some (outs, self\<lparr>theano_rng := g'\<rparr>)"
    using s(1) r(1) assms(3) by (simp add: negative_phase_def scan_positive)
  then show ?thesis using s(1) r rows by auto
qed

text \<open>C2: for \<open>k \<ge> 1\<close> the negative phase is the \<open>k\<close>-fold iteration of \<open>gibbs_hvh\<close>
  from the hidden sample of the positive phase: step \<open>i\<close> of the scan is \<open>gibbs_hvh\<close> on
  the state the iteration has reached after \<open>i\<close> transitions, every step under the input
  history, the hidden sample of the last step is the state after \<open>k\<close> transitions, and
  the chain end \<open>nv_samples[-1]\<close> is the visible sample of the last step.\<close>

theorem negative_phase_iterates_gibbs_hvh:
  assumes "shapes_ok self" and "batch_ok self (input self) (input_history self)" and "1 \<le> k"
  shows "\<exists>pre_sigmoid_ph ph_mean ph_sample self1 outs self2 h s.
     sample_h_given_v self (input self) (input_history self)
       = Some ((pre_sigmoid_ph, ph_mean, ph_sample), self1) \<and>
     negative_phase (int k) self = Some (outs, self2) \<and>
     length outs = k \<and>
     (\<forall>i<k. \<exists>hi si si'.
        iterate_hvh (input_history self) i (ph_sample, self1) = Some (hi, si) \<and>
        gibbs_hvh si hi (input_history self) = Some (outs ! i, si')) \<and>
     iterate_hvh (input_history self) (k - 1) (ph_sample, self1) = Some (h, s) \<and>
     gibbs_hvh s h (input_history self) = Some (last outs, self2) \<and>
     iterate_hvh (input_history self) k (ph_sample, self1) = Some (nh_sample (last outs), self2) \<and>
     last_item (map nv_sample outs) = Some (nv_sample (last outs))"
proof -
  let ?v = "input_history self"
  from negative_phase_shape [OF assms] obtain a p ph g outs g' where
    ph: "sample_h_given_v self (input self) ?v = Some ((a, p, ph), self\<lparr>theano_rng := g\<rparr>)" and
    sc: "scan_steps gibbs_hvh (self\<lparr>theano_rng := g\<rparr>) ph ?v k = Some (outs, self\<lparr>theano_rng := g'\<rparr>)" and
    np: "negative_phase (int k) self = Some (outs, self\<lparr>theano_rng := g'\<rparr>)"
    by blast
  let ?s1 = "self\<lparr>theano_rng := g\<rparr>" and ?s2 = "self\<lparr>theano_rng := g'\<rparr>"
  note si = scan_steps_iterate [OF sc]
  have len: "length outs = k" using si by simp
  then have ne: "outs \<noteq> []" using assms(3) by auto
  have all: "\<forall>i<k. \<exists>hi si si'. iterate_hvh ?v i (ph, ?s1) = Some (hi, si) \<and>
        gibbs_hvh si hi ?v = Some (outs ! i, si')" using si by simp
  have itk: "iterate_hvh ?v k (ph, ?s1) = Some (nh_sample (last outs), ?s2)"
    using si assms(3) by simp
  have "k - 1 < k" using assms(3) by simp
  with all obtain h s s' where
    pre: "iterate_hvh ?v (k - 1) (ph, ?s1) = Some (h, s)" and
    stp: "gibbs_hvh s h ?v = Some (outs ! (k - 1), s')" by blast
  have lst: "outs ! (k - 1) = last outs" using ne len by (simp add: last_conv_nth)
  have "iterate_hvh ?v (Suc (k - 1)) (ph, ?s1) = Some (nh_sample (last outs), s')"
    using pre stp lst by (simp add: hvh_transition_def)
  then have "s' = ?s2" using itk assms(3) by simp
  then have fin: "gibbs_hvh s h ?v = Some (last outs, ?s2)" using stp lst by simp
  have ce: "last_item (map nv_sample outs) = Some (nv_sample (last outs))"
    using ne by (simp add: last_item_def last_map)
  show ?thesis using ph np len all pre fin itk ce by blast
qed

lemmas eval_defs = sample_h_given_v_def sample_v_given_h_def propup_def propdown_def binomial_def
  rk_binomial_def binomial_inversion_def gibbs_hvh_def negative_phase_def scan_def dot_def add_def
  add_row_def sub_def map_mat_def sigmoid_def transpose_mat_def

theorem negative_phase_iterates_gibbs_hvh_witness:
  "shapes_ok example_crbm \<and>
   batch_ok example_crbm (input example_crbm) (input_history example_crbm) \<and> (1::nat) \<le> 2 \<and>
   negative_phase 2 example_crbm =
     Some ([(const_mat 1 1 5, const_mat 1 1 5, const_mat 1 1 0, const_mat 1 1 (1 / 2), const_mat 1 1 1),
            (const_mat 1 1 5, const_mat 1 1 5, const_mat 1 1 0, const_mat 1 1 (1 / 2), const_mat 1 1 1)],
           example_crbm\<lparr>theano_rng := \<lparr>draws = \<lambda>n. 3 / 4, pos = 3\<rparr>\<rparr>) \<and>
   iterate_hvh (input_history example_crbm) 2
       (const_mat 1 1 1, example_crbm\<lparr>theano_rng := \<lparr>draws = \<lambda>n. 3 / 4, pos = 1\<rparr>\<rparr>) =
     Some (const_mat 1 1 1, example_crbm\<lparr>theano_rng := \<lparr>draws = \<lambda>n. 3 / 4, pos = 3\<rparr>\<rparr>)"
  using negative_phase_iterates_gibbs_hvh [of example_crbm 2]
  by (simp add: example_defs eval_defs numeral_2_eq_2 hvh_transition_def nh_sample_def)

section \<open>The gradient of the cost\<close>

lemma softplus_deriv:
  assumes "(g has_real_derivative g') (at t)"
  shows "((\<lambda>t. ln (1 + exp (g t))) has_real_derivative sigmoid (g t) * g') (at t)"
proof -
  have pos: "0 < 1 + exp (g t)" by (simp add: add_pos_pos)
  have eq: "sigmoid (g t) = exp (g t) / (1 + exp (g t))"
    using pos by (simp add: sigmoid_def exp_minus field_simps)
  show ?thesis
    unfolding eq
    by (rule derivative_eq_intros assms pos | simp)+
qed

lemma half_square_deriv:
  assumes "(a has_real_derivative a') (at t)"
  shows "((\<lambda>t. (v - a t)\<^sup>2) has_real_derivative - (2 * (v - a t) * a')) (at t)"
  by (rule derivative_eq_intros assms | simp)+

lemma entry_sum_deriv:
  fixes a :: "nat \<Rightarrow> real"
  assumes "l0 < n"
  shows "((\<lambda>t. \<Sum>l<n. a l * (f(l0 := (f l0)(j0 := t))) l j)
           has_real_derivative (if j = j0 then a l0 else 0)) (at t0)"
proof -
  have each: "((\<lambda>t. a l * (f(l0 := (f l0)(j0 := t))) l j)
      has_real_derivative a l * (if l = l0 \<and> j = j0 then 1 else 0)) (at t0)" for l
  proof -
    have eq: "(f(l0 := (f l0)(j0 := t))) l j = (if l = l0 \<and> j = j0 then t else f l j)" for t
      by simp
    show ?thesis
      unfolding eq by (cases "l = l0 \<and> j = j0") (auto intro!: derivative_eq_intros)
  qed
  have "((\<lambda>t. \<Sum>l<n. a l * (f(l0 := (f l0)(j0 := t))) l j)
      has_real_derivative (\<Sum>l<n. a l * (if l = l0 \<and> j = j0 then 1 else 0))) (at t0)"
    by (rule DERIV_sum) (rule each)
  moreover have "(\<Sum>l<n. a l * (if l = l0 \<and> j = j0 then 1 else 0)) = (if j = j0 then a l0 else 0)"
  proof (cases "j = j0")
    case True
    have "(\<Sum>l<n. a l * (if l = l0 \<and> j = j0 then 1 else 0)) = (\<Sum>l<n. if l = l0 then a l else 0)"
      using True by (intro sum.cong) auto
    also have "\<dots> = a l0" using assms by (simp add: sum.delta)
    finally show ?thesis using True by simp
  next
    case False
    then show ?thesis by simp
  qed
  ultimately show ?thesis by simp
qed


lemma energy_row_deriv:
  assumes nv: "\<And>t. n_visible (S t) = nv" and nh: "\<And>t. n_hidden (S t) = nh"
    and dw: "\<And>j. j < nh \<Longrightarrow> ((\<lambda>t. wx_b (S t) v h i j) has_real_derivative dw j) (at t0)"
    and da: "\<And>j. j < nv \<Longrightarrow> ((\<lambda>t. ax_b (S t) h i j) has_real_derivative da j) (at t0)"
  shows "((\<lambda>t. energy_row (S t) v h i) has_real_derivative
      (\<Sum>j<nv. - ((elem v i j - ax_b (S t0) h i j) * da j))
      - (\<Sum>j<nh. sigmoid (wx_b (S t0) v h i j) * dw j)) (at t0)"
proof -
  have sq: "((\<lambda>t. \<Sum>j<nv. (elem v i j - ax_b (S t) h i j)\<^sup>2) has_real_derivative
      (\<Sum>j<nv. - (2 * (elem v i j - ax_b (S t0) h i j) * da j))) (at t0)"
  proof (rule DERIV_sum)
    fix j assume "j \<in> {..<nv}"
    then have "j < nv" by simp
    then show "((\<lambda>t. (elem v i j - ax_b (S t) h i j)\<^sup>2) has_real_derivative
        - (2 * (elem v i j - ax_b (S t0) h i j) * da j)) (at t0)"
      by (intro half_square_deriv da)
  qed
  have sp: "((\<lambda>t. \<Sum>j<nh. ln (1 + exp (wx_b (S t) v h i j))) has_real_derivative
      (\<Sum>j<nh. sigmoid (wx_b (S t0) v h i j) * dw j)) (at t0)"
  proof (rule DERIV_sum)
    fix j assume "j \<in> {..<nh}"
    then have "j < nh" by simp
    then show "((\<lambda>t. ln (1 + exp (wx_b (S t) v h i j))) has_real_derivative
        sigmoid (wx_b (S t0) v h i j) * dw j) (at t0)"
      by (intro softplus_deriv dw)
  qed
  have "((\<lambda>t. 0.5 * (\<Sum>j<nv. (elem v i j - ax_b (S t) h i j)\<^sup>2)
            - (\<Sum>j<nh. ln (1 + exp (wx_b (S t) v h i j)))) has_real_derivative
      0.5 * (\<Sum>j<nv. - (2 * (elem v i j - ax_b (S t0) h i j) * da j))
      - (\<Sum>j<nh. sigmoid (wx_b (S t0) v h i j) * dw j)) (at t0)"
    by (intro DERIV_diff DERIV_cmult sq sp)
  moreover have "0.5 * (\<Sum>j<nv. - (2 * (elem v i j - ax_b (S t0) h i j) * da j))
      = (\<Sum>j<nv. - ((elem v i j - ax_b (S t0) h i j) * da j))"
    unfolding sum_distrib_left by (rule sum.cong) (simp_all add: algebra_simps)
  ultimately show ?thesis
    by (simp add: energy_row_def nv nh)
qed


lemma with_entry_sizes [simp]:
  "n_visible (with_entry self p i j t) = n_visible self"
  "n_hidden (with_entry self p i j t) = n_hidden self"
  "delay (with_entry self p i j t) = delay self"
  "input (with_entry self p i j t) = input self"
  "input_history (with_entry self p i j t) = input_history self"
  by (cases p; simp)+

lemma with_entry_shapes_ok [simp]: "shapes_ok (with_entry self p i j t) = shapes_ok self"
  by (cases p) (simp_all add: shapes_ok_def set_elem_def set_vel_def)

lemma with_entry_batch_ok [simp]: "batch_ok (with_entry self p i j t) v h = batch_ok self v h"
  by (simp add: batch_ok_def)

lemma with_entry_same: "with_entry self p i j (entry (value_of self p) i j) = self"
  by (cases p) (simp_all add: set_elem_def set_vel_def)

lemma set_vel_deriv:
  "((\<lambda>t. vel (set_vel b j0 t) j) has_real_derivative (if j = j0 then 1 else 0)) (at t0)"
proof -
  have eq: "vel (set_vel b j0 t) j = (if j = j0 then t else vel b j)" for t
    by (simp add: set_vel_def)
  show ?thesis unfolding eq by (cases "j = j0") (auto intro!: derivative_eq_intros)
qed

lemma wx_b_deriv:
  assumes "shapes_ok self" and "in_range (value_of self p) i0 j0"
  shows "((\<lambda>t. wx_b (with_entry self p i0 j0 t) v h i j)
            has_real_derivative d_wx p i0 j0 v h i j) (at t0)"
proof (cases p)
  case Param_W
  then have lt: "i0 < n_visible self" using assms by (simp add: shapes_ok_def)
  have eq: "wx_b (with_entry self Param_W i0 j0 t) v h i j =
        (\<Sum>l<n_visible self. elem v i l * ((elem (W self))(i0 := (elem (W self) i0)(j0 := t))) l j)
          + ((\<Sum>t<n_visible self * delay self. elem h i t * elem (B self) t j) + vel (hbias self) j)" for t
    by (simp add: wx_b_def set_elem_def del: fun_upd_apply)
  have "((\<lambda>t. (\<Sum>l<n_visible self. elem v i l * ((elem (W self))(i0 := (elem (W self) i0)(j0 := t))) l j)
          + ((\<Sum>t<n_visible self * delay self. elem h i t * elem (B self) t j) + vel (hbias self) j))
      has_real_derivative (if j = j0 then elem v i i0 else 0) + 0) (at t0)"
    by (intro DERIV_add entry_sum_deriv [OF lt] DERIV_const)
  then show ?thesis unfolding Param_W eq by (simp del: fun_upd_apply)
next
  case Param_B
  then have lt: "i0 < n_visible self * delay self" using assms by (simp add: shapes_ok_def)
  have eq: "wx_b (with_entry self Param_B i0 j0 t) v h i j =
        (\<Sum>l<n_visible self * delay self. elem h i l * ((elem (B self))(i0 := (elem (B self) i0)(j0 := t))) l j)
          + ((\<Sum>l<n_visible self. elem v i l * elem (W self) l j) + vel (hbias self) j)" for t
    by (simp add: wx_b_def set_elem_def del: fun_upd_apply)
  have "((\<lambda>t. (\<Sum>l<n_visible self * delay self. elem h i l * ((elem (B self))(i0 := (elem (B self) i0)(j0 := t))) l j)
          + ((\<Sum>l<n_visible self. elem v i l * elem (W self) l j) + vel (hbias self) j))
      has_real_derivative (if j = j0 then elem h i i0 else 0) + 0) (at t0)"
    by (intro DERIV_add entry_sum_deriv [OF lt] DERIV_const)
  then show ?thesis unfolding Param_B eq by (simp del: fun_upd_apply)
next
  case Param_hbias
  have "((\<lambda>t. ((\<Sum>l<n_visible self. elem v i l * elem (W self) l j)
        + (\<Sum>t<n_visible self * delay self. elem h i t * elem (B self) t j))
        + vel (set_vel (hbias self) j0 t) j)
      has_real_derivative 0 + (if j = j0 then 1 else 0)) (at t0)"
    by (intro DERIV_add set_vel_deriv DERIV_const)
  then show ?thesis unfolding Param_hbias by (simp add: wx_b_def)
next
  case Param_A
  then show ?thesis by (simp add: wx_b_def)
next
  case Param_vbias
  then show ?thesis by (simp add: wx_b_def)
qed

lemma ax_b_deriv:
  assumes "shapes_ok self" and "in_range (value_of self p) i0 j0"
  shows "((\<lambda>t. ax_b (with_entry self p i0 j0 t) h i j)
            has_real_derivative d_ax p i0 j0 h i j) (at t0)"
proof (cases p)
  case Param_A
  then have lt: "i0 < n_visible self * delay self" using assms by (simp add: shapes_ok_def)
  have eq: "ax_b (with_entry self Param_A i0 j0 t) h i j =
        (\<Sum>l<n_visible self * delay self. elem h i l * ((elem (A self))(i0 := (elem (A self) i0)(j0 := t))) l j)
          + vel (vbias self) j" for t
    by (simp add: ax_b_def set_elem_def del: fun_upd_apply)
  have "((\<lambda>t. (\<Sum>l<n_visible self * delay self. elem h i l * ((elem (A self))(i0 := (elem (A self) i0)(j0 := t))) l j)
          + vel (vbias self) j)
      has_real_derivative (if j = j0 then elem h i i0 else 0) + 0) (at t0)"
    by (intro DERIV_add entry_sum_deriv [OF lt] DERIV_const)
  then show ?thesis unfolding Param_A eq by (simp del: fun_upd_apply)
next
  case Param_vbias
  have "((\<lambda>t. (\<Sum>t<n_visible self * delay self. elem h i t * elem (A self) t j)
        + vel (set_vel (vbias self) j0 t) j)
      has_real_derivative 0 + (if j = j0 then 1 else 0)) (at t0)"
    by (intro DERIV_add set_vel_deriv DERIV_const)
  then show ?thesis unfolding Param_vbias by (simp add: ax_b_def)
next
  case Param_W
  then show ?thesis by (simp add: ax_b_def)
next
  case Param_B
  then show ?thesis by (simp add: ax_b_def)
next
  case Param_hbias
  then show ?thesis by (simp add: ax_b_def)
qed


lemma free_energy_rows:
  assumes "shapes_ok self" and "batch_ok self v h"
  shows "free_energy self v h = Some (\<lparr>vlen = nrows v, vel = energy_row self v h\<rparr>, self)"
proof -
  have "(\<lambda>i. energy_row self v h i) = energy_row self v h" by simp
  then show ?thesis
    using assms
    by (simp add: free_energy_def shapes_ok_def batch_ok_def dot_def add_def add_row_def sub_def
        sub_vec_def sum_axis1_def map_mat_def sqr_def power2_eq_square sum_distrib_left
        energy_row_def wx_b_def ax_b_def fun_eq_iff)
qed

lemma cost_value:
  assumes "shapes_ok self" and "batch_ok self (input self) (input_history self)"
    and "batch_ok self c (input_history self)" and "nrows c = nrows (input self)"
    and "0 < nrows (input self)"
  shows "cost self c =
     Some ((\<Sum>i<nrows (input self). energy_row self (input self) (input_history self) i)
             / real (nrows (input self))
         - (\<Sum>i<nrows (input self). energy_row self c (input_history self) i)
             / real (nrows (input self)), self)"
  using assms(4,5)
  by (simp add: cost_def free_energy_rows [OF assms(1,2)] free_energy_rows [OF assms(1,3)]
      mean_def)

lemma cost_deriv:
  assumes "shapes_ok self" and "batch_ok self (input self) (input_history self)"
    and "batch_ok self c (input_history self)" and "nrows c = nrows (input self)"
    and "0 < nrows (input self)" and "in_range (value_of self p) i0 j0"
  shows "((\<lambda>t. fst (the (cost (with_entry self p i0 j0 t) c))) has_real_derivative
      (\<Sum>i<nrows (input self). d_energy_row self p i0 j0 (input self) (input_history self) i)
          / real (nrows (input self))
      - (\<Sum>i<nrows (input self). d_energy_row self p i0 j0 c (input_history self) i)
          / real (nrows (input self))) (at (entry (value_of self p) i0 j0))"
proof -
  let ?S = "\<lambda>t. with_entry self p i0 j0 t"
  let ?t0 = "entry (value_of self p) i0 j0"
  let ?x = "input self" and ?h = "input_history self" and ?n = "nrows (input self)"
  have val: "fst (the (cost (?S t) c)) =
      (\<Sum>i<?n. energy_row (?S t) ?x ?h i) / real ?n
      - (\<Sum>i<?n. energy_row (?S t) c ?h i) / real ?n" for t
    using cost_value [of "?S t" c] assms by simp
  have row: "((\<lambda>t. energy_row (?S t) v ?h i) has_real_derivative
      d_energy_row self p i0 j0 v ?h i) (at ?t0)" for v i
    unfolding d_energy_row_def
    using energy_row_deriv [of ?S "n_visible self" "n_hidden self" v ?h i
        "d_wx p i0 j0 v ?h i" ?t0 "d_ax p i0 j0 ?h i"]
      wx_b_deriv [OF assms(1,6)] ax_b_deriv [OF assms(1,6)]
    by (simp add: with_entry_same)
  show ?thesis
    unfolding val
    by (intro DERIV_diff DERIV_cdivide DERIV_sum row)
qed


lemma propup_value:
  assumes "shapes_ok self" and "batch_ok self v h"
  shows "propup self v h =
     Some ((\<lparr>nrows = nrows v, ncols = n_hidden self, elem = wx_b self v h\<rparr>,
           \<lparr>nrows = nrows v, ncols = n_hidden self, elem = \<lambda>i j. sigmoid (wx_b self v h i j)\<rparr>),
          self)"
  using assms
  by (simp add: propup_def shapes_ok_def batch_ok_def dot_def add_def add_row_def map_mat_def
      wx_b_def fun_eq_iff)

lemma grad_value:
  assumes "shapes_ok self" and "batch_ok self (input self) (input_history self)"
    and "batch_ok self c (input_history self)" and "nrows c = nrows (input self)"
    and "0 < nrows (input self)"
  shows "grad self c = Some [
       Mat \<lparr>nrows = nrows (W self), ncols = ncols (W self),
            elem = \<lambda>l j. (\<Sum>i<nrows (input self).
                 elem c i l * sigmoid (wx_b self c (input_history self) i j)
                 - elem (input self) i l * sigmoid (wx_b self (input self) (input_history self) i j))
               / real (nrows (input self))\<rparr>,
       Mat \<lparr>nrows = nrows (A self), ncols = ncols (A self),
            elem = \<lambda>t j. (\<Sum>i<nrows (input self).
                 elem (input_history self) i t * (elem c i j - elem (input self) i j))
               / real (nrows (input self))\<rparr>,
       Mat \<lparr>nrows = nrows (B self), ncols = ncols (B self),
            elem = \<lambda>t j. (\<Sum>i<nrows (input self).
                 elem (input_history self) i t
                 * (sigmoid (wx_b self c (input_history self) i j)
                    - sigmoid (wx_b self (input self) (input_history self) i j)))
               / real (nrows (input self))\<rparr>,
       Vec \<lparr>vlen = vlen (hbias self),
            vel = \<lambda>j. (\<Sum>i<nrows (input self).
                 sigmoid (wx_b self c (input_history self) i j)
                 - sigmoid (wx_b self (input self) (input_history self) i j))
               / real (nrows (input self))\<rparr>,
       Vec \<lparr>vlen = vlen (vbias self),
            vel = \<lambda>j. (\<Sum>i<nrows (input self). elem c i j - elem (input self) i j)
               / real (nrows (input self))\<rparr>]"
  by (simp add: grad_def cost_value [OF assms] propup_value [OF assms(1,2)]
      propup_value [OF assms(1,3)] Let_def)

lemma d_energy_row_W:
  assumes "j0 < n_hidden self"
  shows "d_energy_row self Param_W i0 j0 v h i = - (sigmoid (wx_b self v h i j0) * elem v i i0)"
proof -
  have "(\<Sum>j<n_hidden self. sigmoid (wx_b self v h i j) * (if j = j0 then elem v i i0 else 0))
      = (\<Sum>j<n_hidden self. if j = j0 then sigmoid (wx_b self v h i j) * elem v i i0 else 0)"
    by (intro sum.cong) auto
  also have "\<dots> = sigmoid (wx_b self v h i j0) * elem v i i0"
    using assms by (simp add: sum.delta)
  finally show ?thesis by (simp add: d_energy_row_def)
qed

lemma d_energy_row_B:
  assumes "j0 < n_hidden self"
  shows "d_energy_row self Param_B i0 j0 v h i = - (sigmoid (wx_b self v h i j0) * elem h i i0)"
proof -
  have "(\<Sum>j<n_hidden self. sigmoid (wx_b self v h i j) * (if j = j0 then elem h i i0 else 0))
      = (\<Sum>j<n_hidden self. if j = j0 then sigmoid (wx_b self v h i j) * elem h i i0 else 0)"
    by (intro sum.cong) auto
  also have "\<dots> = sigmoid (wx_b self v h i j0) * elem h i i0"
    using assms by (simp add: sum.delta)
  finally show ?thesis by (simp add: d_energy_row_def)
qed

lemma d_energy_row_hbias:
  assumes "j0 < n_hidden self"
  shows "d_energy_row self Param_hbias i0 j0 v h i = - sigmoid (wx_b self v h i j0)"
proof -
  have "(\<Sum>j<n_hidden self. sigmoid (wx_b self v h i j) * (if j = j0 then 1 else 0))
      = (\<Sum>j<n_hidden self. if j = j0 then sigmoid (wx_b self v h i j) else 0)"
    by (intro sum.cong) auto
  also have "\<dots> = sigmoid (wx_b self v h i j0)"
    using assms by (simp add: sum.delta)
  finally show ?thesis by (simp add: d_energy_row_def)
qed

lemma d_energy_row_A:
  assumes "j0 < n_visible self"
  shows "d_energy_row self Param_A i0 j0 v h i = - ((elem v i j0 - ax_b self h i j0) * elem h i i0)"
proof -
  have "(\<Sum>j<n_visible self. - ((elem v i j - ax_b self h i j) * (if j = j0 then elem h i i0 else 0)))
      = (\<Sum>j<n_visible self. if j = j0 then - ((elem v i j - ax_b self h i j) * elem h i i0) else 0)"
    by (intro sum.cong) auto
  also have "\<dots> = - ((elem v i j0 - ax_b self h i j0) * elem h i i0)"
    using assms by (simp add: sum.delta)
  finally show ?thesis by (simp add: d_energy_row_def)
qed

lemma d_energy_row_vbias:
  assumes "j0 < n_visible self"
  shows "d_energy_row self Param_vbias i0 j0 v h i = - (elem v i j0 - ax_b self h i j0)"
proof -
  have "(\<Sum>j<n_visible self. - ((elem v i j - ax_b self h i j) * (if j = j0 then 1 else 0)))
      = (\<Sum>j<n_visible self. if j = j0 then - (elem v i j - ax_b self h i j) else 0)"
    by (intro sum.cong) auto
  also have "\<dots> = - (elem v i j0 - ax_b self h i j0)"
    using assms by (simp add: sum.delta)
  finally show ?thesis by (simp add: d_energy_row_def)
qed


lemma mean_diff_neg:
  fixes f g :: "nat \<Rightarrow> real"
  shows "(\<Sum>i<n. - f i) / d - (\<Sum>i<n. - g i) / d = (\<Sum>i<n. g i - f i) / d"
  by (simp add: sum_negf sum_subtractf diff_divide_distrib)

lemma grad_partial_derivatives:
  assumes ok: "shapes_ok self" "batch_ok self (input self) (input_history self)"
    "batch_ok self c (input_history self)" "nrows c = nrows (input self)"
    "0 < nrows (input self)"
    and gs: "grad self c = Some gs"
  shows "\<exists>g. map_of (zip params gs) p = Some g \<and> shape g = shape (value_of self p) \<and>
     partial_derivatives self c p g"
proof -
  let ?x = "input self" and ?h = "input_history self" and ?n = "nrows (input self)"
  let ?D = "\<lambda>i0 j0. (\<Sum>i<?n. d_energy_row self p i0 j0 ?x ?h i) / real ?n
      - (\<Sum>i<?n. d_energy_row self p i0 j0 c ?h i) / real ?n"
  note gv = gs [unfolded grad_value [OF ok], simplified, symmetric]
  have key: "partial_derivatives self c p g"
    if "\<And>i0 j0. in_range (value_of self p) i0 j0 \<Longrightarrow> ?D i0 j0 = entry g i0 j0" for g
    unfolding partial_derivatives_def
  proof (intro allI impI)
    fix i0 j0 assume r: "in_range (value_of self p) i0 j0"
    show "((\<lambda>t. fst (the (cost (with_entry self p i0 j0 t) c))) has_real_derivative entry g i0 j0)
        (at (entry (value_of self p) i0 j0))"
      using cost_deriv [OF ok r] that [OF r] by simp
  qed
  show ?thesis
  proof (cases p)
    case Param_W
    let ?g = "gs ! 0"
    have m: "map_of (zip params gs) p = Some ?g" "shape ?g = shape (value_of self p)"
      unfolding gv Param_W by (simp_all add: params_def)
    have "?D i0 j0 = entry ?g i0 j0" if "in_range (value_of self p) i0 j0" for i0 j0
    proof -
      have "j0 < n_hidden self" using that ok(1) Param_W by (simp add: shapes_ok_def)
      then show ?thesis
        unfolding gv Param_W
        by (simp add: d_energy_row_W mean_diff_neg mult.commute)
    qed
    from key [OF this] m show ?thesis by blast
  next
    case Param_A
    let ?g = "gs ! 1"
    have m: "map_of (zip params gs) p = Some ?g" "shape ?g = shape (value_of self p)"
      unfolding gv Param_A by (simp_all add: params_def)
    have "?D i0 j0 = entry ?g i0 j0" if "in_range (value_of self p) i0 j0" for i0 j0
    proof -
      have "j0 < n_visible self" using that ok(1) Param_A by (simp add: shapes_ok_def)
      then have "?D i0 j0 = (\<Sum>i<?n. (elem c i j0 - ax_b self ?h i j0) * elem ?h i i0
          - (elem ?x i j0 - ax_b self ?h i j0) * elem ?h i i0) / real ?n"
        unfolding Param_A by (simp add: d_energy_row_A mean_diff_neg)
      also have "(\<Sum>i<?n. (elem c i j0 - ax_b self ?h i j0) * elem ?h i i0
          - (elem ?x i j0 - ax_b self ?h i j0) * elem ?h i i0)
          = (\<Sum>i<?n. elem ?h i i0 * (elem c i j0 - elem ?x i j0))"
        by (intro sum.cong refl) (simp add: algebra_simps)
      finally show ?thesis
        unfolding gv by simp
    qed
    from key [OF this] m show ?thesis by blast
  next
    case Param_B
    let ?g = "gs ! 2"
    have m: "map_of (zip params gs) p = Some ?g" "shape ?g = shape (value_of self p)"
      unfolding gv Param_B by (simp_all add: params_def)
    have "?D i0 j0 = entry ?g i0 j0" if "in_range (value_of self p) i0 j0" for i0 j0
    proof -
      have "j0 < n_hidden self" using that ok(1) Param_B by (simp add: shapes_ok_def)
      then have "?D i0 j0 = (\<Sum>i<?n. sigmoid (wx_b self c ?h i j0) * elem ?h i i0
          - sigmoid (wx_b self ?x ?h i j0) * elem ?h i i0) / real ?n"
        unfolding Param_B by (simp add: d_energy_row_B mean_diff_neg)
      also have "(\<Sum>i<?n. sigmoid (wx_b self c ?h i j0) * elem ?h i i0
          - sigmoid (wx_b self ?x ?h i j0) * elem ?h i i0)
          = (\<Sum>i<?n. elem ?h i i0
               * (sigmoid (wx_b self c ?h i j0) - sigmoid (wx_b self ?x ?h i j0)))"
        by (intro sum.cong refl) (simp add: algebra_simps)
      finally show ?thesis
        unfolding gv by simp
    qed
    from key [OF this] m show ?thesis by blast
  next
    case Param_hbias
    let ?g = "gs ! 3"
    have m: "map_of (zip params gs) p = Some ?g" "shape ?g = shape (value_of self p)"
      unfolding gv Param_hbias by (simp_all add: params_def)
    have "?D i0 j0 = entry ?g i0 j0" if "in_range (value_of self p) i0 j0" for i0 j0
    proof -
      have "j0 < n_hidden self" using that ok(1) Param_hbias by (simp add: shapes_ok_def)
      then show ?thesis
        unfolding gv Param_hbias
        by (simp add: d_energy_row_hbias mean_diff_neg)
    qed
    from key [OF this] m show ?thesis by blast
  next
    case Param_vbias
    let ?g = "gs ! 4"
    have m: "map_of (zip params gs) p = Some ?g" "shape ?g = shape (value_of self p)"
      unfolding gv Param_vbias by (simp_all add: params_def)
    have "?D i0 j0 = entry ?g i0 j0" if "in_range (value_of self p) i0 j0" for i0 j0
    proof -
      have lt: "j0 < n_visible self" using that ok(1) Param_vbias by (simp add: shapes_ok_def)
      have "?D i0 j0 = (\<Sum>i<?n. (elem c i j0 - ax_b self ?h i j0)
          - (elem ?x i j0 - ax_b self ?h i j0)) / real ?n"
        unfolding Param_vbias d_energy_row_vbias [OF lt] mean_diff_neg by simp
      also have "(\<Sum>i<?n. (elem c i j0 - ax_b self ?h i j0) - (elem ?x i j0 - ax_b self ?h i j0))
          = (\<Sum>i<?n. elem c i j0 - elem ?x i j0)"
        by (intro sum.cong refl) simp
      finally show ?thesis
        unfolding gv by simp
    qed
    from key [OF this] m show ?thesis by blast
  qed
qed


section \<open>The updates and the monitoring cost\<close>

lemma update_loop_entries:
  assumes gs: "gs = [Mat gw, Mat ga, Mat gb, Vec gh, Vec gv]"
    and sh: "nrows gw = nrows (W self)" "ncols gw = ncols (W self)"
      "nrows ga = nrows (A self)" "ncols ga = ncols (A self)"
      "nrows gb = nrows (B self)" "ncols gb = ncols (B self)"
      "vlen gh = vlen (hbias self)" "vlen gv = vlen (vbias self)"
  shows "\<exists>upd'. update_loop self lr (zip gs params) upd = Some upd' \<and>
     new_stream upd' = new_stream upd \<and>
     (\<forall>p. \<exists>g u. map_of (zip params gs) p = Some g \<and> new_value upd' p = Some u \<and>
        shape u = shape (value_of self p) \<and>
        (\<forall>i j. entry u i j
           = entry (value_of self p) i j - (if p = Param_A then 0.01 * lr else lr) * entry g i j))"
proof -
  let ?upd' = "upd\<lparr>new_value := (new_value upd)
      (Param_W \<mapsto> Mat \<lparr>nrows = nrows (W self), ncols = ncols (W self),
          elem = \<lambda>i j. elem (W self) i j - elem gw i j * lr\<rparr>,
       Param_A \<mapsto> Mat \<lparr>nrows = nrows (A self), ncols = ncols (A self),
          elem = \<lambda>i j. elem (A self) i j - elem ga i j * 0.01 * lr\<rparr>,
       Param_B \<mapsto> Mat \<lparr>nrows = nrows (B self), ncols = ncols (B self),
          elem = \<lambda>i j. elem (B self) i j - elem gb i j * lr\<rparr>,
       Param_hbias \<mapsto> Vec \<lparr>vlen = vlen (hbias self),
          vel = \<lambda>i. vel (hbias self) i - vel gh i * lr\<rparr>,
       Param_vbias \<mapsto> Vec \<lparr>vlen = vlen (vbias self),
          vel = \<lambda>i. vel (vbias self) i - vel gv i * lr\<rparr>)\<rparr>"
  have run: "update_loop self lr (zip gs params) upd = Some ?upd'"
    using sh by (simp add: gs params_def sub_def sub_vec_def map_mat_def map_vec_def)
  have each: "\<exists>g u. map_of (zip params gs) p = Some g \<and> new_value ?upd' p = Some u \<and>
        shape u = shape (value_of self p) \<and>
        (\<forall>i j. entry u i j
           = entry (value_of self p) i j - (if p = Param_A then 0.01 * lr else lr) * entry g i j)"
    for p
    by (cases p) (simp_all add: gs params_def)
  show ?thesis using run each by auto
qed


lemma grad_shape:
  assumes "shapes_ok self" and "batch_ok self (input self) (input_history self)"
    and "batch_ok self c (input_history self)" and "nrows c = nrows (input self)"
    and "0 < nrows (input self)"
  shows "\<exists>gw ga gb gh gv. grad self c = Some [Mat gw, Mat ga, Mat gb, Vec gh, Vec gv] \<and>
      nrows gw = nrows (W self) \<and> ncols gw = ncols (W self) \<and>
      nrows ga = nrows (A self) \<and> ncols ga = ncols (A self) \<and>
      nrows gb = nrows (B self) \<and> ncols gb = ncols (B self) \<and>
      vlen gh = vlen (hbias self) \<and> vlen gv = vlen (vbias self)"
  unfolding grad_value [OF assms] by simp

lemma value_of_stream [simp]: "value_of (self\<lparr>theano_rng := g\<rparr>) p = value_of self p"
  by (cases p) simp_all

lemma update_loop_stream [simp]:
  "update_loop (self\<lparr>theano_rng := g\<rparr>) lr gps upd = update_loop self lr gps upd"
proof (induction gps arbitrary: upd)
  case Nil
  show ?case by simp
next
  case (Cons a gps)
  obtain gparam p where a: "a = (gparam, p)" by (cases a) auto
  show ?case unfolding a by (simp add: Cons.IH)
qed

lemma energy_row_stream [simp]:
  "energy_row (self\<lparr>theano_rng := g\<rparr>) v h = energy_row self v h"
  by (simp add: energy_row_def wx_b_def ax_b_def fun_eq_iff)

lemma wx_b_stream [simp]: "wx_b (self\<lparr>theano_rng := g\<rparr>) v h = wx_b self v h"
  by (simp add: wx_b_def fun_eq_iff)

lemma grad_stream:
  assumes "shapes_ok self" and "batch_ok self (input self) (input_history self)"
    and "batch_ok self c (input_history self)" and "nrows c = nrows (input self)"
    and "0 < nrows (input self)"
  shows "grad (self\<lparr>theano_rng := g\<rparr>) c = grad self c"
  using grad_value [of "self\<lparr>theano_rng := g\<rparr>" c] grad_value [OF assms] assms by simp

lemma evaluate_value:
  assumes ok: "shapes_ok self" "batch_ok self (input self) (input_history self)"
    and k: "1 \<le> k" and n: "0 < nrows (input self)"
  shows "\<exists>outs self' gs upd.
     negative_phase (int k) self = Some (outs, self') \<and> outs \<noteq> [] \<and>
     batch_ok self (nv_sample (last outs)) (input_history self) \<and>
     nrows (nv_sample (last outs)) = nrows (input self) \<and>
     grad self (nv_sample (last outs)) = Some gs \<and>
     update_loop self lr (zip gs params) \<lparr>new_stream = theano_rng self', new_value = Map.empty\<rparr>
       = Some upd \<and>
     evaluate lr (int k) self =
       Some ((\<Sum>i<nrows (input self). \<Sum>j<n_visible self.
                 (elem (input self) i j - elem (nv_mean (last outs)) i j)\<^sup>2)
               / real (nrows (input self)), upd)"
proof -
  let ?x = "input self" and ?h = "input_history self"
  from negative_phase_shape [OF ok k] obtain a p s g outs g' where
    sc: "scan_steps gibbs_hvh (self\<lparr>theano_rng := g\<rparr>) s ?h k = Some (outs, self\<lparr>theano_rng := g'\<rparr>)" and
    np: "negative_phase (int k) self = Some (outs, self\<lparr>theano_rng := g'\<rparr>)" and
    all: "\<forall>out\<in>set outs. batch_ok self (nv_sample out) ?h \<and> nv_mean out = nv_sample out \<and>
        nrows (nv_sample out) = nrows ?x"
    by blast
  let ?s1 = "self\<lparr>theano_rng := g'\<rparr>"
  have "length outs = k" using scan_steps_iterate [OF sc] by simp
  then have ne: "outs \<noteq> []" using k by auto
  then have "last outs \<in> set outs" by simp
  with all have lo: "batch_ok self (nv_sample (last outs)) ?h"
    "nv_mean (last outs) = nv_sample (last outs)" "nrows (nv_sample (last outs)) = nrows ?x"
    by blast+
  let ?c = "nv_sample (last outs)"
  let ?u0 = "\<lparr>new_stream = g', new_value = Map.empty\<rparr>"
  obtain cv where co: "cost ?s1 ?c = Some (cv, ?s1)"
    using cost_value [of ?s1 ?c] ok lo n by simp
  from grad_shape [OF ok lo(1,3) n] obtain gs gw ga gb gh gv where
    gr: "grad self ?c = Some gs" and gs: "gs = [Mat gw, Mat ga, Mat gb, Vec gh, Vec gv]" and
    sh: "nrows gw = nrows (W self)" "ncols gw = ncols (W self)"
      "nrows ga = nrows (A self)" "ncols ga = ncols (A self)"
      "nrows gb = nrows (B self)" "ncols gb = ncols (B self)"
      "vlen gh = vlen (hbias self)" "vlen gv = vlen (vbias self)"
    by blast
  have gr1: "grad ?s1 ?c = Some gs"
    using grad_stream [OF ok lo(1,3) n] gr by simp
  from update_loop_entries [OF gs sh, of lr ?u0] obtain upd where
    ul: "update_loop self lr (zip gs params) ?u0 = Some upd"
    by blast
  have rc: "get_reconstruction_cost ?s1 upd (nv_mean (last outs)) =
      Some ((\<Sum>i<nrows ?x. \<Sum>j<n_visible self. (elem ?x i j - elem (nv_mean (last outs)) i j)\<^sup>2)
               / real (nrows ?x), ?s1)"
    using ok(2) lo n
    by (simp add: get_reconstruction_cost_def sub_def mean_def sum_axis1_def map_mat_def
        batch_ok_def sqr_def power2_eq_square)
  have ev: "evaluate lr (int k) self =
      Some ((\<Sum>i<nrows ?x. \<Sum>j<n_visible self. (elem ?x i j - elem (nv_mean (last outs)) i j)\<^sup>2)
               / real (nrows ?x), upd)"
    using ne
    by (simp add: evaluate_def np co last_item_def last_map gr1 ul rc)
  have ul': "update_loop self lr (zip gs params)
      \<lparr>new_stream = theano_rng (self\<lparr>theano_rng := g'\<rparr>), new_value = Map.empty\<rparr> = Some upd"
    using ul by simp
  from np ne lo(1,3) gr ul' ev show ?thesis by blast
qed

text \<open>C7: the monitoring cost that \<open>get_cost_updates\<close> returns is the squared difference
  between the input and the visible mean of the last Gibbs step (\<open>nv_means[-1]\<close>), summed
  over the visible units and averaged over the batch.\<close>

theorem monitoring_cost_is_reconstruction_error:
  assumes "shapes_ok self" and "batch_ok self (input self) (input_history self)"
    and "1 \<le> k" and "0 < nrows (input self)"
  shows "\<exists>f outs self' upd.
     get_cost_updates self lr (int k) = Some (f, self) \<and>
     negative_phase (int k) self = Some (outs, self') \<and>
     last_item (map nv_mean outs) = Some (nv_mean (last outs)) \<and>
     f self = Some ((\<Sum>i<nrows (input self). \<Sum>j<n_visible self.
                 (elem (input self) i j - elem (nv_mean (last outs)) i j)\<^sup>2)
               / real (nrows (input self)), upd)"
proof -
  from evaluate_value [OF assms, of lr] obtain outs self' upd where
    "negative_phase (int k) self = Some (outs, self')" "outs \<noteq> []"
    "evaluate lr (int k) self =
       Some ((\<Sum>i<nrows (input self). \<Sum>j<n_visible self.
                 (elem (input self) i j - elem (nv_mean (last outs)) i j)\<^sup>2)
               / real (nrows (input self)), upd)"
    by blast
  moreover from this(2) have "last_item (map nv_mean outs) = Some (nv_mean (last outs))"
    by (simp add: last_item_def last_map)
  moreover have "get_cost_updates self lr (int k) = Some (evaluate lr (int k), self)"
    by (simp add: get_cost_updates_def)
  ultimately show ?thesis by blast
qed

text \<open>C1: the updates that \<open>get_cost_updates\<close> returns map every parameter \<open>p\<close> to
  \<open>p - lr * g\<close>, and \<open>A\<close> to \<open>A - 0.01 * lr * g\<close>, where \<open>g\<close> is the tensor of \<open>p\<close> in the
  gradient: it has the shape of \<open>p\<close> and its entries are the partial derivatives, in the
  entries of \<open>p\<close>, of the mean free energy of the input minus the mean free energy of the
  chain end, the chain end being held at its value.\<close>

theorem updates_follow_gradient:
  assumes "shapes_ok self" and "batch_ok self (input self) (input_history self)"
    and "1 \<le> k" and "0 < nrows (input self)"
  shows "\<exists>f c upd outs self' chain_end gparams.
     get_cost_updates self lr (int k) = Some (f, self) \<and> f self = Some (c, upd) \<and>
     negative_phase (int k) self = Some (outs, self') \<and>
     last_item (map nv_sample outs) = Some chain_end \<and>
     grad self chain_end = Some gparams \<and>
     (\<forall>p. \<exists>g u. map_of (zip params gparams) p = Some g \<and>
        partial_derivatives self chain_end p g \<and>
        new_value upd p = Some u \<and> shape u = shape (value_of self p) \<and>
        (\<forall>i j. entry u i j
           = entry (value_of self p) i j - (if p = Param_A then 0.01 * lr else lr) * entry g i j))"
proof -
  let ?h = "input_history self"
  from evaluate_value [OF assms, of lr] obtain outs self' gs upd c where
    np: "negative_phase (int k) self = Some (outs, self')" and ne: "outs \<noteq> []" and
    lo: "batch_ok self (nv_sample (last outs)) ?h"
      "nrows (nv_sample (last outs)) = nrows (input self)" and
    gr: "grad self (nv_sample (last outs)) = Some gs" and
    ul: "update_loop self lr (zip gs params)
        \<lparr>new_stream = theano_rng self', new_value = Map.empty\<rparr> = Some upd" and
    ev: "evaluate lr (int k) self = Some (c, upd)"
    by blast
  let ?c = "nv_sample (last outs)"
  from grad_shape [OF assms(1,2) lo assms(4)] gr obtain gw ga gb gh gv where
    gs: "gs = [Mat gw, Mat ga, Mat gb, Vec gh, Vec gv]" and
    sh: "nrows gw = nrows (W self)" "ncols gw = ncols (W self)"
      "nrows ga = nrows (A self)" "ncols ga = ncols (A self)"
      "nrows gb = nrows (B self)" "ncols gb = ncols (B self)"
      "vlen gh = vlen (hbias self)" "vlen gv = vlen (vbias self)"
    by auto
  from update_loop_entries [OF gs sh, of lr
      "\<lparr>new_stream = theano_rng self', new_value = Map.empty\<rparr>"] ul
  have en: "\<exists>g u. map_of (zip params gs) p = Some g \<and> new_value upd p = Some u \<and>
        shape u = shape (value_of self p) \<and>
        (\<forall>i j. entry u i j
           = entry (value_of self p) i j - (if p = Param_A then 0.01 * lr else lr) * entry g i j)"
    for p by auto
  have each: "\<exists>g u. map_of (zip params gs) p = Some g \<and>
        partial_derivatives self ?c p g \<and>
        new_value upd p = Some u \<and> shape u = shape (value_of self p) \<and>
        (\<forall>i j. entry u i j
           = entry (value_of self p) i j - (if p = Param_A then 0.01 * lr else lr) * entry g i j)"
    for p
    using en [of p] grad_partial_derivatives [OF assms(1,2) lo assms(4) gr, of p] by auto
  have ce: "last_item (map nv_sample outs) = Some ?c"
    using ne by (simp add: last_item_def last_map)
  have "get_cost_updates self lr (int k) = Some (evaluate lr (int k), self)"
    by (simp add: get_cost_updates_def)
  with ev np ce gr each show ?thesis by blast
qed


section \<open>One step on the sample model\<close>

lemma example_evaluate:
  "evaluate (1 / 10) 1 example_crbm =
     Some (16, \<lparr>new_stream = \<lparr>draws = \<lambda>n. 3 / 4, pos = 2\<rparr>,
       new_value = [Param_W \<mapsto> Mat (const_mat 1 1 (- 1 / 5)),
                    Param_A \<mapsto> Mat (const_mat 1 1 (499 / 250)),
                    Param_B \<mapsto> Mat (const_mat 1 1 0),
                    Param_hbias \<mapsto> Vec (const_vec 1 0),
                    Param_vbias \<mapsto> Vec (const_vec 1 (13 / 5))]\<rparr>)"
  by (simp add: evaluate_def example_defs eval_defs last_item_def nv_sample_def nv_mean_def
      grad_def cost_def free_energy_def sub_vec_def sum_axis1_def mean_def sqr_def params_def
      map_vec_def get_reconstruction_cost_def)

lemma example_cost: "cost example_crbm (const_mat 1 1 5) = Some (8, example_crbm)"
  by (simp add: example_defs cost_def free_energy_def dot_def add_def add_row_def sub_def
      sub_vec_def sum_axis1_def map_mat_def mean_def sqr_def)

theorem monitoring_cost_is_reconstruction_error_witness:
  "shapes_ok example_crbm \<and>
   batch_ok example_crbm (input example_crbm) (input_history example_crbm) \<and>
   (1::nat) \<le> 1 \<and> 0 < nrows (input example_crbm) \<and>
   get_cost_updates example_crbm (1 / 10) 1 = Some (evaluate (1 / 10) 1, example_crbm) \<and>
   map_option fst (evaluate (1 / 10) 1 example_crbm) = Some 16 \<and>
   cost example_crbm (const_mat 1 1 5) = Some (8, example_crbm)"
  using monitoring_cost_is_reconstruction_error [of example_crbm 1 "1 / 10"]
    example_evaluate example_cost
  by (simp add: example_defs get_cost_updates_def)

theorem updates_follow_gradient_witness:
  "shapes_ok example_crbm \<and>
   batch_ok example_crbm (input example_crbm) (input_history example_crbm) \<and>
   (1::nat) \<le> 1 \<and> 0 < nrows (input example_crbm) \<and>
   get_cost_updates example_crbm (1 / 10) 1 = Some (evaluate (1 / 10) 1, example_crbm) \<and>
   evaluate (1 / 10) 1 example_crbm =
     Some (16, \<lparr>new_stream = \<lparr>draws = \<lambda>n. 3 / 4, pos = 2\<rparr>,
       new_value = [Param_W \<mapsto> Mat (const_mat 1 1 (- 1 / 5)),
                    Param_A \<mapsto> Mat (const_mat 1 1 (499 / 250)),
                    Param_B \<mapsto> Mat (const_mat 1 1 0),
                    Param_hbias \<mapsto> Vec (const_vec 1 0),
                    Param_vbias \<mapsto> Vec (const_vec 1 (13 / 5))]\<rparr>) \<and>
   grad example_crbm (const_mat 1 1 5) =
     Some [Mat (const_mat 1 1 2), Mat (const_mat 1 1 4), Mat (const_mat 1 1 0),
           Vec (const_vec 1 0), Vec (const_vec 1 4)]"
  using updates_follow_gradient [of example_crbm 1 "1 / 10"] example_evaluate
  by (simp add: example_defs get_cost_updates_def grad_def cost_def free_energy_def propup_def
      dot_def add_def add_row_def sub_def sub_vec_def sum_axis1_def map_mat_def mean_def sqr_def
      sigmoid_def)

lemma example_train_batch:
  "train_batch example_crbm (1 / 10) 1 =
     Some (16, example_crbm\<lparr>W := const_mat 1 1 (- 1 / 5), A := const_mat 1 1 (499 / 250),
        vbias := const_vec 1 (13 / 5), theano_rng := \<lparr>draws = \<lambda>n. 3 / 4, pos = 2\<rparr>\<rparr>)"
proof -
  have "train_batch example_crbm (1 / 10) 1 =
      Some (16, apply_updates \<lparr>new_stream = \<lparr>draws = \<lambda>n. 3 / 4, pos = 2\<rparr>,
       new_value = [Param_W \<mapsto> Mat (const_mat 1 1 (- 1 / 5)),
                    Param_A \<mapsto> Mat (const_mat 1 1 (499 / 250)),
                    Param_B \<mapsto> Mat (const_mat 1 1 0),
                    Param_hbias \<mapsto> Vec (const_vec 1 0),
                    Param_vbias \<mapsto> Vec (const_vec 1 (13 / 5))]\<rparr> example_crbm)"
    unfolding train_batch_def get_cost_updates_def train_step_def by (simp add: example_evaluate)
  then show ?thesis
    by (simp add: apply_updates_def example_crbm_def)
qed

section \<open>The number of steps\<close>

lemma negative_phase_minus_one: "negative_phase (- 1) self = negative_phase 1 self"
  by (simp add: negative_phase_def scan_def)

lemma negative_phase_no_step: "k = 0 \<or> k < - 1 \<Longrightarrow> negative_phase k self = None"
  by (auto simp add: negative_phase_def scan_def split: Option.bind_split)

lemma evaluate_minus_one: "evaluate lr (- 1) self = evaluate lr 1 self"
  by (simp add: evaluate_def negative_phase_minus_one)

lemma evaluate_no_step: "k = 0 \<or> k < - 1 \<Longrightarrow> evaluate lr k self = None"
  by (simp add: evaluate_def negative_phase_no_step)

text \<open>C9, as stated, fails: the call with \<open>k = 0\<close> is not rejected, it returns its
  expressions; and with \<open>k = -1\<close> the call and a run of the compiled function go through
  silently, with the cost and the new parameters of one Gibbs step.\<close>

theorem get_cost_updates_accepts_k_below_one:
  "get_cost_updates example_crbm (1 / 10) 0 = Some (evaluate (1 / 10) 0, example_crbm) \<and>
   train_batch example_crbm (1 / 10) (- 1) =
     Some (16, example_crbm\<lparr>W := const_mat 1 1 (- 1 / 5), A := const_mat 1 1 (499 / 250),
        vbias := const_vec 1 (13 / 5), theano_rng := \<lparr>draws = \<lambda>n. 3 / 4, pos = 2\<rparr>\<rparr>)"
proof -
  have "train_batch example_crbm (1 / 10) (- 1) = train_batch example_crbm (1 / 10) 1"
    by (simp add: train_batch_def get_cost_updates_def train_step_def evaluate_minus_one)
  then show ?thesis
    by (simp add: example_train_batch get_cost_updates_def)
qed

text \<open>C9, amended: \<open>get_cost_updates\<close> checks nothing about \<open>k\<close> when it is called: for
  every integer \<open>k\<close> the call returns its cost and updates expressions and leaves the
  object as it was. When the expressions are evaluated, \<open>k = 0\<close> and \<open>k < -1\<close> fail in the
  scan, which does not run for zero or a negative number of steps, so the chain, the
  cost, the updates and a training step all have no value; \<open>k = -1\<close> is taken as one
  step, with the cost and updates of \<open>k = 1\<close>.\<close>

theorem get_cost_updates_checks_nothing:
  "get_cost_updates self lr k = Some (evaluate lr k, self) \<and>
   (k = 0 \<or> k < - 1 \<longrightarrow>
      negative_phase k self = None \<and> evaluate lr k self = None \<and>
      train_batch self lr k = None) \<and>
   negative_phase (- 1) self = negative_phase 1 self \<and>
   evaluate lr (- 1) self = evaluate lr 1 self \<and>
   train_batch self lr (- 1) = train_batch self lr 1"
  by (simp add: get_cost_updates_def train_batch_def train_step_def negative_phase_minus_one
      evaluate_minus_one negative_phase_no_step evaluate_no_step)

theorem get_cost_updates_checks_nothing_witness:
  "(- 2 :: int) < - 1 \<and>
   get_cost_updates example_crbm (1 / 10) (- 2) = Some (evaluate (1 / 10) (- 2), example_crbm) \<and>
   evaluate (1 / 10) (- 2) example_crbm = None \<and>
   train_batch example_crbm (1 / 10) (- 2) = None \<and>
   evaluate (1 / 10) (- 1) example_crbm = evaluate (1 / 10) 1 example_crbm"
  using get_cost_updates_checks_nothing [of example_crbm "1 / 10" "- 2"]
    get_cost_updates_checks_nothing [of example_crbm "1 / 10" 0]
  by simp

section \<open>The parameters after a call\<close>

lemma parameters_stream [simp]: "parameters (self\<lparr>theano_rng := g\<rparr>) = parameters self"
  by (simp add: parameters_def)

lemma grad_kinds:
  "grad self c = Some gs \<Longrightarrow> \<exists>gw ga gb gh gv. gs = [Mat gw, Mat ga, Mat gb, Vec gh, Vec gv]"
  by (auto simp add: grad_def Let_def split: Option.bind_splits)

lemma minus_tensor_Mat:
  "minus_tensor (Mat a) (scale (Mat b) c) = Some t \<Longrightarrow> \<exists>m. t = Mat m"
  by auto

lemma minus_tensor_Vec:
  "minus_tensor (Vec a) (scale (Vec b) c) = Some t \<Longrightarrow> \<exists>m. t = Vec m"
  by auto

lemma update_loop_dictionary:
  assumes "update_loop self lr (zip [Mat gw, Mat ga, Mat gb, Vec gh, Vec gv] params) upd0 = Some upd"
  shows "\<exists>w a b h v. new_value upd Param_W = Some (Mat w) \<and> new_value upd Param_A = Some (Mat a) \<and>
     new_value upd Param_B = Some (Mat b) \<and> new_value upd Param_hbias = Some (Vec h) \<and>
     new_value upd Param_vbias = Some (Vec v)"
  using assms
  by (auto simp add: params_def split: Option.bind_splits)

lemma evaluate_dictionary:
  assumes "evaluate lr k self = Some (c, upd)"
  shows "new_value upd p = Some (value_of (apply_updates upd self) p)"
proof -
  from assms obtain s gs u0 where
    gr: "grad s (the (last_item (map nv_sample (fst (the (negative_phase k self)))))) = Some gs" and
    ul: "update_loop s lr (zip gs params) u0 = Some upd"
    by (auto simp add: evaluate_def Let_def split: Option.bind_splits)
  from grad_kinds [OF gr] obtain gw ga gb gh gv where
    "gs = [Mat gw, Mat ga, Mat gb, Vec gh, Vec gv]" by blast
  with ul update_loop_dictionary obtain w a b h v where
    "new_value upd Param_W = Some (Mat w)" "new_value upd Param_A = Some (Mat a)"
    "new_value upd Param_B = Some (Mat b)" "new_value upd Param_hbias = Some (Vec h)"
    "new_value upd Param_vbias = Some (Vec v)"
    by blast
  then show ?thesis
    by (cases p) (simp_all add: apply_updates_def)
qed

text \<open>C10: no operation changes \<open>W\<close>, \<open>A\<close>, \<open>B\<close>, \<open>hbias\<close> or \<open>vbias\<close>: the object that
  \<open>free_energy\<close>, \<open>propup\<close>, \<open>propdown\<close>, the two sampling functions, the two Gibbs
  transitions and \<open>get_cost_updates\<close> leave behind has the five parameters of the object
  they were called on. \<open>get_cost_updates\<close> returns its expressions and nothing else; what
  they evaluate to holds, for every parameter, the value the parameter has once the
  caller's compiled function has assigned the updates.\<close>

theorem calls_leave_parameters:
  "(\<forall>r s. free_energy self v h = Some (r, s) \<longrightarrow> parameters s = parameters self) \<and>
   (\<forall>r s. propup self v h = Some (r, s) \<longrightarrow> parameters s = parameters self) \<and>
   (\<forall>r s. propdown self hid h = Some (r, s) \<longrightarrow> parameters s = parameters self) \<and>
   (\<forall>r s. sample_h_given_v self v h = Some (r, s) \<longrightarrow> parameters s = parameters self) \<and>
   (\<forall>r s. sample_v_given_h self hid h = Some (r, s) \<longrightarrow> parameters s = parameters self) \<and>
   (\<forall>r s. gibbs_hvh self hid h = Some (r, s) \<longrightarrow> parameters s = parameters self) \<and>
   (\<forall>r s. gibbs_vhv self v h = Some (r, s) \<longrightarrow> parameters s = parameters self) \<and>
   (\<forall>f s. get_cost_updates self lr k = Some (f, s) \<longrightarrow>
      parameters s = parameters self \<and> f = evaluate lr k) \<and>
   (\<forall>c upd. evaluate lr k self = Some (c, upd) \<longrightarrow>
      (\<forall>p. new_value upd p = Some (value_of (apply_updates upd self) p)) \<and>
      train_batch self lr k = Some (c, apply_updates upd self))"
proof -
  have 1: "\<forall>r s. free_energy self v h = Some (r, s) \<longrightarrow> parameters s = parameters self"
    using free_energy_frame by blast
  have 2: "\<forall>r s. propup self v h = Some (r, s) \<longrightarrow> parameters s = parameters self"
    using propup_frame by blast
  have 3: "\<forall>r s. propdown self hid h = Some (r, s) \<longrightarrow> parameters s = parameters self"
    using propdown_frame by blast
  have 4: "\<forall>r s. sample_h_given_v self v h = Some (r, s) \<longrightarrow> parameters s = parameters self"
    using sample_h_given_v_frame by fastforce
  have 5: "\<forall>r s. sample_v_given_h self hid h = Some (r, s) \<longrightarrow> parameters s = parameters self"
    using sample_v_given_h_frame by blast
  have 6: "\<forall>r s. gibbs_hvh self hid h = Some (r, s) \<longrightarrow> parameters s = parameters self"
    using gibbs_hvh_frame by fastforce
  have 7: "\<forall>r s. gibbs_vhv self v h = Some (r, s) \<longrightarrow> parameters s = parameters self"
    using gibbs_vhv_frame by fastforce
  have 8: "\<forall>f s. get_cost_updates self lr k = Some (f, s) \<longrightarrow>
      parameters s = parameters self \<and> f = evaluate lr k"
    by (simp add: get_cost_updates_def)
  have 9: "\<forall>c upd. evaluate lr k self = Some (c, upd) \<longrightarrow>
      (\<forall>p. new_value upd p = Some (value_of (apply_updates upd self) p)) \<and>
      train_batch self lr k = Some (c, apply_updates upd self)"
    using evaluate_dictionary
    by (simp add: train_batch_def get_cost_updates_def train_step_def)
  from 1 2 3 4 5 6 7 8 9 show ?thesis by blast
qed

theorem calls_leave_parameters_witness:
  "sample_h_given_v example_crbm (const_mat 1 1 1) (const_mat 1 1 1) =
     Some ((const_mat 1 1 0, const_mat 1 1 (1 / 2), const_mat 1 1 1),
           example_crbm\<lparr>theano_rng := \<lparr>draws = \<lambda>n. 3 / 4, pos = 1\<rparr>\<rparr>) \<and>
   parameters (example_crbm\<lparr>theano_rng := \<lparr>draws = \<lambda>n. 3 / 4, pos = 1\<rparr>\<rparr>)
     = parameters example_crbm \<and>
   train_batch example_crbm (1 / 10) 1 =
     Some (16, example_crbm\<lparr>W := const_mat 1 1 (- 1 / 5), A := const_mat 1 1 (499 / 250),
        vbias := const_vec 1 (13 / 5), theano_rng := \<lparr>draws = \<lambda>n. 3 / 4, pos = 2\<rparr>\<rparr>) \<and>
   W example_crbm = const_mat 1 1 0"
  using calls_leave_parameters [where self = example_crbm and v = "const_mat 1 1 1"
      and h = "const_mat 1 1 1" and lr = "1 / 10" and k = 1]
    example_evaluate example_train_batch
  by (simp add: example_defs sample_h_given_v_def propup_def binomial_def rk_binomial_def
      binomial_inversion_def dot_def add_def add_row_def map_mat_def sigmoid_def)


end
